theory Spec2Isabelle
  imports Main
begin

section \<open>The alert store of \<open>Interface/backend_.py\<close>\<close>

text \<open>
  The module keeps one global dictionary \<open>alerts_database\<close>, reads and writes JSON files
  and prints a diagnostic when a save fails. The model makes all of this explicit:
  the global, the files, the behaviour of the next write to each path and the printed
  lines are fields of one state record, and every function of the module takes the state
  and returns a result together with the new state. A Python exception that leaves the
  function is the result \<open>Inl e\<close>.
\<close>

subsection \<open>JSON values and Python's operations on them\<close>

text \<open>
  What \<open>json.load\<close> returns and \<open>json.dump\<close> accepts. A Python \<open>dict\<close> keeps its keys in
  insertion order with no key twice, so an object is an association list; every list of
  pairs that stands for a dict in a theorem is assumed to have distinct keys where that
  matters. Numbers are integers: floating-point values are left out of the model.
\<close>

datatype json =
    JNull
  | JBool bool
  | JInt int
  | JStr string
  | JList "json list"
  | JObj "(string \<times> json) list"

datatype error = OSError string | UnicodeDecodeError | TypeError | AttributeError | KeyError

text \<open>\<open>d[k] = v\<close> on a dict: an existing key keeps its place, a new key goes last.\<close>

fun dict_setitem :: "string \<Rightarrow> json \<Rightarrow> (string \<times> json) list \<Rightarrow> (string \<times> json) list" where
  "dict_setitem k v [] = [(k, v)]"
| "dict_setitem k v ((k', v') # kvs) =
     (if k' = k then (k, v) # kvs else (k', v') # dict_setitem k v kvs)"

text \<open>\<open>sub in s\<close> on two strings.\<close>

fun starts_with :: "string \<Rightarrow> string \<Rightarrow> bool" where
  "starts_with s [] = True"
| "starts_with [] (c # cs) = False"
| "starts_with (d # ds) (c # cs) = (d = c \<and> starts_with ds cs)"

fun str_contains :: "string \<Rightarrow> string \<Rightarrow> bool" where
  "str_contains [] sub = (sub = [])"
| "str_contains (c # cs) sub = (starts_with (c # cs) sub \<or> str_contains cs sub)"

text \<open>\<open>k in x\<close> for a string \<open>k\<close>: keys of a dict, elements of a list, substrings of a
  string; any other JSON value is not iterable.\<close>

fun py_contains :: "json \<Rightarrow> string \<Rightarrow> error + bool" where
  "py_contains (JObj kvs) k = Inr (k \<in> set (map fst kvs))"
| "py_contains (JList xs) k = Inr (JStr k \<in> set xs)"
| "py_contains (JStr s) k = Inr (str_contains s k)"
| "py_contains _ k = Inl TypeError"

text \<open>\<open>x[k] = v\<close> for a string \<open>k\<close>: only a dict accepts it.\<close>

fun py_setitem :: "json \<Rightarrow> string \<Rightarrow> json \<Rightarrow> error + json" where
  "py_setitem (JObj kvs) k v = Inr (JObj (dict_setitem k v kvs))"
| "py_setitem _ k v = Inl TypeError"

text \<open>\<open>x[k]\<close> for a string \<open>k\<close>.\<close>

fun py_getitem :: "json \<Rightarrow> string \<Rightarrow> error + json" where
  "py_getitem (JObj kvs) k = (case map_of kvs k of None \<Rightarrow> Inl KeyError | Some v \<Rightarrow> Inr v)"
| "py_getitem _ k = Inl TypeError"

text \<open>\<open>x.get(k, d)\<close>, \<open>x.items()\<close> and \<open>x.values()\<close>: methods of dicts only.\<close>

fun py_get :: "json \<Rightarrow> string \<Rightarrow> json \<Rightarrow> error + json" where
  "py_get (JObj kvs) k d = Inr (case map_of kvs k of None \<Rightarrow> d | Some v \<Rightarrow> v)"
| "py_get _ k d = Inl AttributeError"

fun py_items :: "json \<Rightarrow> error + (string \<times> json) list" where
  "py_items (JObj kvs) = Inr kvs"
| "py_items _ = Inl AttributeError"

fun py_values :: "json \<Rightarrow> error + json list" where
  "py_values (JObj kvs) = Inr (map snd kvs)"
| "py_values _ = Inl AttributeError"

text \<open>\<open>x.update(y)\<close> with two dicts: every item of \<open>y\<close> is stored into \<open>x\<close>, in the order
  of \<open>y\<close>. The module only ever calls it on two dicts; the other equations stand for the
  exception Python raises otherwise.\<close>

fun dict_update :: "(string \<times> json) list \<Rightarrow> (string \<times> json) list \<Rightarrow> (string \<times> json) list" where
  "dict_update kvs [] = kvs"
| "dict_update kvs ((k, v) # rest) = dict_update (dict_setitem k v kvs) rest"

fun py_update :: "json \<Rightarrow> json \<Rightarrow> error + json" where
  "py_update (JObj kvs) (JObj new) = Inr (JObj (dict_update kvs new))"
| "py_update (JObj kvs) _ = Inl TypeError"
| "py_update _ _ = Inl AttributeError"

text \<open>Truth value of a JSON value, as \<open>not x\<close> sees it.\<close>

fun py_truthy :: "json \<Rightarrow> bool" where
  "py_truthy JNull = False"
| "py_truthy (JBool b) = b"
| "py_truthy (JInt i) = (i \<noteq> 0)"
| "py_truthy (JStr s) = (s \<noteq> [])"
| "py_truthy (JList xs) = (xs \<noteq> [])"
| "py_truthy (JObj kvs) = (kvs \<noteq> [])"

subsection \<open>The state: the global, the files, the console\<close>

text \<open>
  What \<open>open(filename, "r")\<close> followed by \<open>json.load\<close> meets at a path: no file
  (\<open>FileNotFoundError\<close>); a file that cannot be read, either because it cannot be opened
  (another \<open>OSError\<close>, with its message) or because its bytes do not decode as text
  (\<open>UnicodeDecodeError\<close>, which is a \<open>ValueError\<close> and neither an \<open>OSError\<close> nor a
  \<open>JSONDecodeError\<close>); text that decodes and is not JSON (\<open>JSONDecodeError\<close>); or text
  that parses to a value. \<open>json.dump\<close> followed by \<open>json.load\<close> gives the value back, so
  a file written by the module holds the value written.
\<close>

datatype read_failure = OsFailure string | DecodeFailure

datatype file_state = Missing | Unreadable read_failure | Corrupt | Content json

text \<open>
  What \<open>open(filename, "w")\<close> followed by \<open>json.dump\<close> will do at a path: succeed, fail to
  open (the file stays as it is), or fail after the file was truncated (the file is left
  with text that is not JSON). Both failures are \<open>OSError\<close>s with a message.
\<close>

datatype write_behaviour = WriteOk | OpenFails string | WriteFails string

record state =
  alerts_database :: json
  files :: "string \<Rightarrow> file_state"
  write_outcome :: "string \<Rightarrow> write_behaviour"
  stdout :: "string list"

definition empty_database :: json where
  "empty_database =
     JObj [(''active_alerts'', JList []), (''read_alerts'', JList []), (''alerts_by_time'', JObj [])]"

subsection \<open>\<open>load_alerts_from_file\<close>\<close>

text \<open>\<open>if k not in alerts_database: alerts_database[k] = d\<close>\<close>

definition ensure_key :: "string \<Rightarrow> json \<Rightarrow> json \<Rightarrow> error + json" where
  "ensure_key k d db =
     (case py_contains db k of
        Inl e \<Rightarrow> Inl e
      | Inr present \<Rightarrow> if present then Inr db else py_setitem db k d)"

text \<open>
  The global is rebound to the parsed value before the three checks, so an exception in a
  check leaves the parsed value in the global. Only \<open>FileNotFoundError\<close> and
  \<open>JSONDecodeError\<close> are caught: a file that cannot be read makes the function raise, with
  the global as it was.
\<close>

definition load_alerts_from_file :: "string \<Rightarrow> state \<Rightarrow> (error + unit) \<times> state" where
  "load_alerts_from_file filename s =
     (case files s filename of
        Missing \<Rightarrow> (Inr (), s\<lparr>alerts_database := empty_database\<rparr>)
      | Corrupt \<Rightarrow> (Inr (), s\<lparr>alerts_database := empty_database\<rparr>)
      | Unreadable (OsFailure msg) \<Rightarrow> (Inl (OSError msg), s)
      | Unreadable DecodeFailure \<Rightarrow> (Inl UnicodeDecodeError, s)
      | Content data \<Rightarrow>
          (case ensure_key ''alerts_by_time'' (JObj []) data of
             Inl e \<Rightarrow> (Inl e, s\<lparr>alerts_database := data\<rparr>)
           | Inr d1 \<Rightarrow>
          (case ensure_key ''active_alerts'' (JList []) d1 of
             Inl e \<Rightarrow> (Inl e, s\<lparr>alerts_database := d1\<rparr>)
           | Inr d2 \<Rightarrow>
          (case ensure_key ''read_alerts'' (JList []) d2 of
             Inl e \<Rightarrow> (Inl e, s\<lparr>alerts_database := d2\<rparr>)
           | Inr d3 \<Rightarrow> (Inr (), s\<lparr>alerts_database := d3\<rparr>)))))"

subsection \<open>\<open>save_alerts_to_file\<close>\<close>

text \<open>
  The loop \<open>for hour, alert_info in ...items(): existing_data["alerts_by_time"][hour] = alert_info\<close>.
  The inner dict is changed in place; with values instead of references, the changed inner
  dict is stored back under the key it already has, which keeps the key's place.
\<close>

fun merge_by_time :: "(string \<times> json) list \<Rightarrow> json \<Rightarrow> error + json" where
  "merge_by_time [] existing_data = Inr existing_data"
| "merge_by_time ((hour, alert_info) # rest) existing_data =
     (case py_getitem existing_data ''alerts_by_time'' of
        Inl e \<Rightarrow> Inl e
      | Inr inner \<Rightarrow>
     (case py_setitem inner hour alert_info of
        Inl e \<Rightarrow> Inl e
      | Inr inner' \<Rightarrow>
     (case py_setitem existing_data ''alerts_by_time'' inner' of
        Inl e \<Rightarrow> Inl e
      | Inr existing_data' \<Rightarrow> merge_by_time rest existing_data')))"

text \<open>Lines 69 to 76: the merge of the global into \<open>existing_data\<close>, in the order in which
  Python evaluates it (the right-hand side of an assignment first).\<close>

definition merge_alerts :: "json \<Rightarrow> json \<Rightarrow> error + json" where
  "merge_alerts existing_data db =
     (case py_get db ''active_alerts'' (JList []) of
        Inl e \<Rightarrow> Inl e
      | Inr active \<Rightarrow>
     (case py_setitem existing_data ''active_alerts'' active of
        Inl e \<Rightarrow> Inl e
      | Inr e1 \<Rightarrow>
     (case py_get db ''read_alerts'' (JList []) of
        Inl e \<Rightarrow> Inl e
      | Inr rd \<Rightarrow>
     (case py_setitem e1 ''read_alerts'' rd of
        Inl e \<Rightarrow> Inl e
      | Inr e2 \<Rightarrow>
     (case ensure_key ''alerts_by_time'' (JObj []) e2 of
        Inl e \<Rightarrow> Inl e
      | Inr e3 \<Rightarrow>
     (case py_getitem db ''alerts_by_time'' of
        Inl e \<Rightarrow> Inl e
      | Inr by_time \<Rightarrow>
     (case py_items by_time of
        Inl e \<Rightarrow> Inl e
      | Inr items \<Rightarrow> merge_by_time items e3)))))))"

text \<open>The inner \<open>try\<close>: the parsed file, or the empty structure when there is no file or
  its text is not JSON. A file that cannot be read is dealt with before this is used.\<close>

definition stored :: "file_state \<Rightarrow> json" where
  "stored on_disk = (case on_disk of Content data \<Rightarrow> data | _ \<Rightarrow> empty_database)"

definition error_line :: "string \<Rightarrow> string" where
  "error_line msg = ''Error saving alerts: '' @ msg"

text \<open>
  The outer \<open>except IOError\<close> catches every \<open>OSError\<close>: one from opening the file for
  reading (the inner \<open>except\<close> only takes \<open>FileNotFoundError\<close> and \<open>JSONDecodeError\<close>) and
  one from writing. \<open>UnicodeDecodeError\<close> from reading, and \<open>TypeError\<close>, \<open>AttributeError\<close>
  and \<open>KeyError\<close> from the merge, leave the function.
\<close>

definition save_alerts_to_file :: "string \<Rightarrow> state \<Rightarrow> (error + unit) \<times> state" where
  "save_alerts_to_file filename s =
     (case files s filename of
        Unreadable (OsFailure msg) \<Rightarrow> (Inr (), s\<lparr>stdout := stdout s @ [error_line msg]\<rparr>)
      | Unreadable DecodeFailure \<Rightarrow> (Inl UnicodeDecodeError, s)
      | on_disk \<Rightarrow>
          (case merge_alerts (stored on_disk) (alerts_database s) of
             Inl e \<Rightarrow> (Inl e, s)
           | Inr existing_data \<Rightarrow>
               (case write_outcome s filename of
                  OpenFails msg \<Rightarrow> (Inr (), s\<lparr>stdout := stdout s @ [error_line msg]\<rparr>)
                | WriteFails msg \<Rightarrow>
                    (Inr (), s\<lparr>files := (files s)(filename := Corrupt),
                                stdout := stdout s @ [error_line msg]\<rparr>)
                | WriteOk \<Rightarrow>
                    (case py_update (alerts_database s) existing_data of
                       Inl e \<Rightarrow> (Inl e, s\<lparr>files := (files s)(filename := Content existing_data)\<rparr>)
                     | Inr db \<Rightarrow>
                         (Inr (), s\<lparr>alerts_database := db,
                                     files := (files s)(filename := Content existing_data)\<rparr>)))))"

subsection \<open>\<open>add_alert_by_time\<close> and the two queries\<close>

definition new_alert :: "json \<Rightarrow> json \<Rightarrow> json \<Rightarrow> json" where
  "new_alert parameter val message =
     JObj [(''Parameter'', parameter), (''Value'', val), (''Message'', message),
           (''read'', JBool False)]"

text \<open>\<open>hour\<close> is a string, as the docstring says; \<open>parameter\<close>, \<open>value\<close> and \<open>message\<close> are
  any JSON values.\<close>

definition add_alert_by_time ::
  "string \<Rightarrow> json \<Rightarrow> json \<Rightarrow> json \<Rightarrow> string \<Rightarrow> state \<Rightarrow> (error + unit) \<times> state" where
  "add_alert_by_time hour parameter val message filename s =
     (case load_alerts_from_file filename s of
        (Inl e, s1) \<Rightarrow> (Inl e, s1)
      | (Inr _, s1) \<Rightarrow>
     (case py_getitem (alerts_database s1) ''alerts_by_time'' of
        Inl e \<Rightarrow> (Inl e, s1)
      | Inr by_time \<Rightarrow>
     (case py_setitem by_time hour (new_alert parameter val message) of
        Inl e \<Rightarrow> (Inl e, s1)
      | Inr by_time' \<Rightarrow>
     (case py_setitem (alerts_database s1) ''alerts_by_time'' by_time' of
        Inl e \<Rightarrow> (Inl e, s1)
      | Inr db \<Rightarrow> save_alerts_to_file filename (s1\<lparr>alerts_database := db\<rparr>)))))"

definition get_alerts_by_time :: "string \<Rightarrow> state \<Rightarrow> (error + json) \<times> state" where
  "get_alerts_by_time filename s =
     (case load_alerts_from_file filename s of
        (Inl e, s1) \<Rightarrow> (Inl e, s1)
      | (Inr _, s1) \<Rightarrow> (py_getitem (alerts_database s1) ''alerts_by_time'', s1))"

text \<open>The comprehension \<open>[alert for alert in ... if not alert.get("read", False)]\<close>.\<close>

fun unread_of :: "json list \<Rightarrow> error + json list" where
  "unread_of [] = Inr []"
| "unread_of (alert # rest) =
     (case py_get alert ''read'' (JBool False) of
        Inl e \<Rightarrow> Inl e
      | Inr r \<Rightarrow>
     (case unread_of rest of
        Inl e \<Rightarrow> Inl e
      | Inr out \<Rightarrow> Inr (if \<not> py_truthy r then alert # out else out)))"

definition get_unread_alerts :: "string \<Rightarrow> state \<Rightarrow> (error + json list) \<times> state" where
  "get_unread_alerts filename s =
     (case load_alerts_from_file filename s of
        (Inl e, s1) \<Rightarrow> (Inl e, s1)
      | (Inr _, s1) \<Rightarrow>
     (case py_getitem (alerts_database s1) ''alerts_by_time'' of
        Inl e \<Rightarrow> (Inl e, s1)
      | Inr by_time \<Rightarrow>
     (case py_values by_time of
        Inl e \<Rightarrow> (Inl e, s1)
      | Inr alerts \<Rightarrow> (unread_of alerts, s1))))"

subsection \<open>The trend accessors\<close>

text \<open>
  The module \<open>fake_database\<close> is not part of the sources; what \<open>tendance_moyenne()\<close> and
  \<open>get_detailed_data()\<close> return is a parameter of the two accessors. \<open>date\<close> is a string,
  so \<open>item["Date"] == date\<close> holds exactly when the field is that string.
\<close>

fun first_with_date :: "json list \<Rightarrow> string \<Rightarrow> error + json" where
  "first_with_date [] date = Inr (JObj [])"
| "first_with_date (item # rest) date =
     (case py_getitem item ''Date'' of
        Inl e \<Rightarrow> Inl e
      | Inr d \<Rightarrow> if d = JStr date then Inr item else first_with_date rest date)"

definition get_trend_data :: "json list \<Rightarrow> string \<Rightarrow> error + json" where
  "get_trend_data data_list date = first_with_date data_list date"

definition get_detailed_trend_data :: "json \<Rightarrow> string \<Rightarrow> error + json" where
  "get_detailed_trend_data detailed_data date = py_get detailed_data date (JObj [])"

section \<open>Documents\<close>

text \<open>
  The vocabulary of the statements below. \<open>fields_of\<close> reads the top-level fields of a
  value as a map and \<open>by_time_of\<close> its \<open>alerts_by_time\<close> dict (empty when there is none).
  A document is a dict whose \<open>alerts_by_time\<close>, when present, is a dict; as Python dicts
  they have no key twice. A path holds a document when the file there can be read or is
  missing, and what \<open>stored\<close> takes from it is a document.
\<close>

definition fields_of :: "json \<Rightarrow> string \<Rightarrow> json option" where
  "fields_of d = (case d of JObj kvs \<Rightarrow> map_of kvs | _ \<Rightarrow> Map.empty)"

definition by_time_of :: "json \<Rightarrow> (string \<times> json) list" where
  "by_time_of d =
     (case fields_of d ''alerts_by_time'' of Some (JObj by_time) \<Rightarrow> by_time | _ \<Rightarrow> [])"

definition is_document :: "json \<Rightarrow> bool" where
  "is_document d =
     (case d of
        JObj kvs \<Rightarrow>
          distinct (map fst kvs) \<and>
          (case map_of kvs ''alerts_by_time'' of
             None \<Rightarrow> True
           | Some (JObj by_time) \<Rightarrow> distinct (map fst by_time)
           | Some _ \<Rightarrow> False)
      | _ \<Rightarrow> False)"

definition holds_document :: "file_state \<Rightarrow> bool" where
  "holds_document on_disk =
     (case on_disk of Unreadable msg \<Rightarrow> False | _ \<Rightarrow> is_document (stored on_disk))"

text \<open>
  \<open>file_by_time\<close> reads the \<open>alerts_by_time\<close> dict off the file itself: it is empty when
  there is no file, when the file cannot be read or holds no JSON, and when the parsed
  value is not a dict with such a dict in it.
\<close>

definition file_by_time :: "file_state \<Rightarrow> (string \<times> json) list" where
  "file_by_time on_disk =
     (case on_disk of
        Content (JObj kvs) \<Rightarrow>
          (case map_of kvs ''alerts_by_time'' of Some (JObj by_time) \<Rightarrow> by_time | _ \<Rightarrow> [])
      | _ \<Rightarrow> [])"

text \<open>The three fields with their empty values, as a map.\<close>

definition defaults :: "string \<Rightarrow> json option" where
  "defaults = fields_of empty_database"

text \<open>\<open>d.get(k, [])\<close> on the fields of a dict.\<close>

definition field_or_empty_list :: "(string \<times> json) list \<Rightarrow> string \<Rightarrow> json" where
  "field_or_empty_list kvs k = (case map_of kvs k of None \<Rightarrow> JList [] | Some v \<Rightarrow> v)"

text \<open>
  A record has the four fields when it is a dict with the keys \<open>Parameter\<close>, \<open>Value\<close>,
  \<open>Message\<close> and \<open>read\<close>; \<open>records_ok\<close> says so of every value of \<open>alerts_by_time\<close>.
  \<open>distinct_keys\<close> is the property of every Python dict that no key occurs twice, for
  the top level of a value.
\<close>

definition has_four_fields :: "json \<Rightarrow> bool" where
  "has_four_fields r =
     (case r of
        JObj fs \<Rightarrow>
          map_of fs ''Parameter'' \<noteq> None \<and> map_of fs ''Value'' \<noteq> None \<and>
          map_of fs ''Message'' \<noteq> None \<and> map_of fs ''read'' \<noteq> None
      | _ \<Rightarrow> False)"

definition records_ok :: "json \<Rightarrow> bool" where
  "records_ok d = list_all (\<lambda>kv. has_four_fields (snd kv)) (by_time_of d)"

definition distinct_keys :: "json \<Rightarrow> bool" where
  "distinct_keys d = (case d of JObj kvs \<Rightarrow> distinct (map fst kvs) | _ \<Rightarrow> True)"

text \<open>
  The words of the specification for the unread filter: a record is unread when its
  \<open>read\<close> field is absent or false. \<open>read_is_boolean\<close> says that a record is a dict whose
  \<open>read\<close> field, when present, is a boolean, as the data model has it.
\<close>

definition spec_unread :: "json \<Rightarrow> bool" where
  "spec_unread r = (fields_of r ''read'' = None \<or> fields_of r ''read'' = Some (JBool False))"

definition read_is_boolean :: "json \<Rightarrow> bool" where
  "read_is_boolean r =
     (case r of
        JObj fs \<Rightarrow>
          (case map_of fs ''read'' of None \<Rightarrow> True | Some (JBool b) \<Rightarrow> True | Some _ \<Rightarrow> False)
      | _ \<Rightarrow> False)"

text \<open>An entry of the averaged trend is a dict with a \<open>Date\<close> field.\<close>

definition has_date :: "json \<Rightarrow> bool" where
  "has_date item = (fields_of item ''Date'' \<noteq> None)"

section \<open>Example states\<close>

text \<open>
  Concrete states on which the theorems below are instantiated. In \<open>example_state\<close> the
  file \<open>alerts.json\<close> holds a document with a field of its own (\<open>version\<close>) and one alert
  that was read; \<open>list.json\<close> holds the JSON text \<open>[]\<close>; \<open>broken.json\<close> holds a record
  without fields; \<open>unread.json\<close> holds three records, one unread, one read and one without
  the flag, the later hour first; the bytes of \<open>binary.json\<close> do not decode as text;
  there is no other file, and every write succeeds except at
  \<open>readonly.json\<close>. The global holds a document with a field of its own (\<open>note\<close>).
  \<open>example_trend\<close> is an averaged trend with two entries for one date.
\<close>

definition example_read_alert :: json where
  "example_read_alert =
     JObj [(''Parameter'', JStr ''CO2''), (''Value'', JInt 900), (''Message'', JStr ''Air''),
           (''read'', JBool True)]"

definition example_on_disk :: "(string \<times> json) list" where
  "example_on_disk =
     [(''version'', JInt 2), (''alerts_by_time'', JObj [(''08:00'', example_read_alert)])]"

definition example_files :: "string \<Rightarrow> file_state" where
  "example_files =
     (\<lambda>p. Missing)
       (''alerts.json'' := Content (JObj example_on_disk),
        ''list.json'' := Content (JList []),
        ''broken.json'' := Content (JObj [(''alerts_by_time'', JObj [(''07:00'', JObj [])])]),
        ''unread.json'' := Content (JObj [(''alerts_by_time'', JObj
           [(''10:00'', JObj [(''Message'', JStr ''late''), (''read'', JBool False)]),
            (''B'', JObj [(''read'', JBool True)]),
            (''07:00'', JObj [(''Message'', JStr ''early'')])])]),
        ''binary.json'' := Unreadable DecodeFailure)"

definition example_by_time :: "(string \<times> json) list" where
  "example_by_time =
     [(''07:00'', new_alert (JStr ''Temperature'') (JInt 30) (JStr ''Too hot''))]"

definition example_database :: "(string \<times> json) list" where
  "example_database =
     [(''active_alerts'', JList [JStr ''a1'']),
      (''read_alerts'', JList []),
      (''alerts_by_time'', JObj example_by_time),
      (''note'', JInt 1)]"

definition example_state :: state where
  "example_state =
     \<lparr>alerts_database = JObj example_database,
      files = example_files,
      write_outcome = (\<lambda>p. if p = ''readonly.json'' then OpenFails ''Permission denied'' else WriteOk),
      stdout = []\<rparr>"

definition example_trend :: "json list" where
  "example_trend =
     [JObj [(''Date'', JStr ''2024-01-01''), (''Temperature'', JInt 20)],
      JObj [(''Date'', JStr ''2024-01-02''), (''Temperature'', JInt 21)],
      JObj [(''Date'', JStr ''2024-01-02''), (''Temperature'', JInt 22)]]"

section \<open>Dictionaries\<close>

lemma map_of_dict_setitem: "map_of (dict_setitem k v kvs) = (map_of kvs)(k \<mapsto> v)"
  by (induction kvs) auto

lemma keys_dict_setitem: "fst ` set (dict_setitem k v kvs) = insert k (fst ` set kvs)"
proof -
  have "fst ` set (dict_setitem k v kvs) = dom (map_of (dict_setitem k v kvs))"
    by (simp add: dom_map_of_conv_image_fst)
  also have "\<dots> = insert k (dom (map_of kvs))"
    by (simp add: map_of_dict_setitem)
  finally show ?thesis by (simp add: dom_map_of_conv_image_fst)
qed

lemma keys_dict_setitem_present:
  "map_of kvs k = Some v' \<Longrightarrow> map fst (dict_setitem k v kvs) = map fst kvs"
  by (induction kvs) (auto split: if_splits)

lemma distinct_dict_setitem:
  "distinct (map fst kvs) \<Longrightarrow> distinct (map fst (dict_setitem k v kvs))"
proof (induction kvs)
  case Nil
  then show ?case by simp
next
  case (Cons p kvs)
  have "fst p \<noteq> k \<Longrightarrow> fst p \<notin> fst ` set (dict_setitem k v kvs)"
    using Cons.prems by (simp add: keys_dict_setitem)
  then show ?case using Cons by (cases p) auto
qed

lemma map_of_dict_update:
  "distinct (map fst new) \<Longrightarrow> map_of (dict_update kvs new) = map_of kvs ++ map_of new"
proof (induction new arbitrary: kvs)
  case Nil
  then show ?case by simp
next
  case (Cons p new)
  obtain k v where p: "p = (k, v)" by (cases p)
  from Cons.prems p have notin: "map_of new k = None" and d: "distinct (map fst new)"
    by (auto simp: map_of_eq_None_iff)
  have "map_of (dict_update kvs (p # new)) = map_of (dict_setitem k v kvs) ++ map_of new"
    using Cons.IH [OF d] p by simp
  also have "\<dots> = (map_of kvs)(k \<mapsto> v) ++ map_of new"
    by (simp only: map_of_dict_setitem)
  also have "\<dots> = map_of kvs ++ map_of (p # new)"
    using notin p by (auto simp: fun_eq_iff map_add_def split: option.splits)
  finally show ?case .
qed

section \<open>The merge of \<open>save_alerts_to_file\<close>\<close>

lemma merge_by_time_obj:
  "map_of ex ''alerts_by_time'' = Some (JObj inner) \<Longrightarrow>
   \<exists>ex'. merge_by_time items (JObj ex) = Inr (JObj ex')
     \<and> map_of ex' = (map_of ex)(''alerts_by_time'' \<mapsto> JObj (dict_update inner items))
     \<and> map fst ex' = map fst ex"
proof (induction items arbitrary: ex inner)
  case Nil
  then show ?case by (auto simp: fun_eq_iff)
next
  case (Cons p items)
  obtain hour info where p: "p = (hour, info)" by (cases p)
  let ?ex1 = "dict_setitem ''alerts_by_time'' (JObj (dict_setitem hour info inner)) ex"
  have 1: "map_of ?ex1 ''alerts_by_time'' = Some (JObj (dict_setitem hour info inner))"
    by (simp add: map_of_dict_setitem)
  from Cons.IH [OF 1] obtain ex' where
    r: "merge_by_time items (JObj ?ex1) = Inr (JObj ex')"
    and m: "map_of ex' = (map_of ?ex1)(''alerts_by_time'' \<mapsto> JObj (dict_update (dict_setitem hour info inner) items))"
    and k: "map fst ex' = map fst ?ex1"
    by blast
  have "merge_by_time (p # items) (JObj ex) = Inr (JObj ex')"
    using Cons.prems r p by simp
  moreover have "map_of ex' = (map_of ex)(''alerts_by_time'' \<mapsto> JObj (dict_update inner (p # items)))"
    using m p by (simp add: map_of_dict_setitem)
  moreover have "map fst ex' = map fst ex"
    using k Cons.prems by (simp add: keys_dict_setitem_present)
  ultimately show ?case by blast
qed

lemma ensure_key_obj:
  "\<exists>kvs'. ensure_key k d (JObj kvs) = Inr (JObj kvs')
     \<and> map_of kvs' = [k \<mapsto> d] ++ map_of kvs
     \<and> (distinct (map fst kvs) \<longrightarrow> distinct (map fst kvs'))
     \<and> (k \<in> fst ` set kvs \<longrightarrow> kvs' = kvs)"
proof (cases "k \<in> fst ` set kvs")
  case True
  then obtain v where "map_of kvs k = Some v"
    by (metis domD dom_map_of_conv_image_fst)
  then have "[k \<mapsto> d] ++ map_of kvs = map_of kvs"
    by (auto simp: fun_eq_iff map_add_def split: option.splits)
  with True show ?thesis by (simp add: ensure_key_def)
next
  case False
  then have "map_of kvs k = None"
    by (simp add: map_of_eq_None_iff)
  then have "[k \<mapsto> d] ++ map_of kvs = (map_of kvs)(k \<mapsto> d)"
    by (auto simp: fun_eq_iff map_add_def split: option.splits)
  with False show ?thesis
    by (simp add: ensure_key_def map_of_dict_setitem distinct_dict_setitem)
qed

lemma merge_alerts_obj:
  assumes m: "map_of m ''alerts_by_time'' = Some (JObj ma)"
    and ex: "map_of ex ''alerts_by_time'' = None \<or> (\<exists>t. map_of ex ''alerts_by_time'' = Some (JObj t))"
  shows "\<exists>mg. merge_alerts (JObj ex) (JObj m) = Inr (JObj mg)
     \<and> map_of mg = (map_of ex)
          (''active_alerts'' \<mapsto> field_or_empty_list m ''active_alerts'',
           ''read_alerts'' \<mapsto> field_or_empty_list m ''read_alerts'',
           ''alerts_by_time'' \<mapsto> JObj (dict_update (by_time_of (JObj ex)) ma))
     \<and> (distinct (map fst ex) \<longrightarrow> distinct (map fst mg))"
proof -
  let ?e2 = "dict_setitem ''read_alerts'' (field_or_empty_list m ''read_alerts'')
              (dict_setitem ''active_alerts'' (field_or_empty_list m ''active_alerts'') ex)"
  obtain e3 where e3: "ensure_key ''alerts_by_time'' (JObj []) (JObj ?e2) = Inr (JObj e3)"
    and e3m: "map_of e3 = [''alerts_by_time'' \<mapsto> JObj []] ++ map_of ?e2"
    and e3d: "distinct (map fst ?e2) \<longrightarrow> distinct (map fst e3)"
    using ensure_key_obj [of "''alerts_by_time''" "JObj []" ?e2] by blast
  have e2bt: "map_of ?e2 ''alerts_by_time'' = map_of ex ''alerts_by_time''"
    by (simp add: map_of_dict_setitem)
  have inner: "map_of e3 ''alerts_by_time'' = Some (JObj (by_time_of (JObj ex)))"
    using ex e3m e2bt by (auto simp: by_time_of_def fields_of_def map_add_def)
  from merge_by_time_obj [OF inner, of ma] obtain mg where
    r: "merge_by_time ma (JObj e3) = Inr (JObj mg)"
    and mm: "map_of mg = (map_of e3)(''alerts_by_time'' \<mapsto> JObj (dict_update (by_time_of (JObj ex)) ma))"
    and mk: "map fst mg = map fst e3"
    by blast
  have "merge_alerts (JObj ex) (JObj m) = Inr (JObj mg)"
    using m e3 r by (simp add: merge_alerts_def field_or_empty_list_def)
  moreover have "map_of mg = (map_of ex)
          (''active_alerts'' \<mapsto> field_or_empty_list m ''active_alerts'',
           ''read_alerts'' \<mapsto> field_or_empty_list m ''read_alerts'',
           ''alerts_by_time'' \<mapsto> JObj (dict_update (by_time_of (JObj ex)) ma))"
    unfolding mm e3m by (auto simp: fun_eq_iff map_of_dict_setitem map_add_def split: option.splits)
  moreover have "distinct (map fst ex) \<longrightarrow> distinct (map fst mg)"
    using e3d mk by (simp add: distinct_dict_setitem)
  ultimately show ?thesis by blast
qed

section \<open>Loading and saving documents\<close>

lemma defaults_simps:
  "defaults ''active_alerts'' = Some (JList [])"
  "defaults ''read_alerts'' = Some (JList [])"
  "defaults ''alerts_by_time'' = Some (JObj [])"
  "k \<noteq> ''active_alerts'' \<Longrightarrow> k \<noteq> ''read_alerts'' \<Longrightarrow> k \<noteq> ''alerts_by_time'' \<Longrightarrow> defaults k = None"
  by (simp_all add: defaults_def fields_of_def empty_database_def)

lemma load_missing:
  "files s p = Missing \<or> files s p = Corrupt \<Longrightarrow>
   load_alerts_from_file p s = (Inr (), s\<lparr>alerts_database := empty_database\<rparr>)"
  by (auto simp: load_alerts_from_file_def)

lemma load_obj:
  assumes "files s p = Content (JObj ex)"
  shows "\<exists>L. load_alerts_from_file p s = (Inr (), s\<lparr>alerts_database := JObj L\<rparr>)
     \<and> map_of L = defaults ++ map_of ex
     \<and> (distinct (map fst ex) \<longrightarrow> distinct (map fst L))"
proof -
  obtain d1 where 1: "ensure_key ''alerts_by_time'' (JObj []) (JObj ex) = Inr (JObj d1)"
    and m1: "map_of d1 = [''alerts_by_time'' \<mapsto> JObj []] ++ map_of ex"
    and k1: "distinct (map fst ex) \<longrightarrow> distinct (map fst d1)"
    using ensure_key_obj [of "''alerts_by_time''" "JObj []" ex] by blast
  obtain d2 where 2: "ensure_key ''active_alerts'' (JList []) (JObj d1) = Inr (JObj d2)"
    and m2: "map_of d2 = [''active_alerts'' \<mapsto> JList []] ++ map_of d1"
    and k2: "distinct (map fst d1) \<longrightarrow> distinct (map fst d2)"
    using ensure_key_obj [of "''active_alerts''" "JList []" d1] by blast
  obtain d3 where 3: "ensure_key ''read_alerts'' (JList []) (JObj d2) = Inr (JObj d3)"
    and m3: "map_of d3 = [''read_alerts'' \<mapsto> JList []] ++ map_of d2"
    and k3: "distinct (map fst d2) \<longrightarrow> distinct (map fst d3)"
    using ensure_key_obj [of "''read_alerts''" "JList []" d2] by blast
  have "load_alerts_from_file p s = (Inr (), s\<lparr>alerts_database := JObj d3\<rparr>)"
    using assms 1 2 3 by (simp add: load_alerts_from_file_def)
  moreover have "map_of d3 = defaults ++ map_of ex"
  proof
    fix k
    show "map_of d3 k = (defaults ++ map_of ex) k"
      unfolding m3 m2 m1
      by (cases "map_of ex k")
         (auto simp: map_add_def defaults_def fields_of_def empty_database_def)
  qed
  ultimately show ?thesis using k1 k2 k3 by blast
qed

lemma is_document_shape:
  assumes "is_document d"
  shows "\<exists>ex. d = JObj ex \<and> distinct (map fst ex)
     \<and> (map_of ex ''alerts_by_time'' = None
        \<or> (\<exists>t. map_of ex ''alerts_by_time'' = Some (JObj t) \<and> distinct (map fst t)))"
proof (cases d)
  case (JObj ex)
  show ?thesis
  proof (cases "map_of ex ''alerts_by_time''")
    case None
    with JObj assms show ?thesis by (simp add: is_document_def)
  next
    case (Some v)
    with JObj assms show ?thesis by (cases v) (simp_all add: is_document_def)
  qed
qed (use assms in \<open>simp_all add: is_document_def\<close>)

lemma holds_document_shape:
  assumes "holds_document on_disk"
  shows "is_document (stored on_disk)" and "on_disk \<noteq> Unreadable msg"
  using assms by (cases on_disk; simp add: holds_document_def)+

lemma distinct_by_time_of:
  "is_document d \<Longrightarrow> distinct (map fst (by_time_of d))"
  by (auto dest!: is_document_shape simp: by_time_of_def fields_of_def)

lemma save_obj:
  assumes db: "alerts_database s = JObj m"
    and bt: "map_of m ''alerts_by_time'' = Some (JObj ma)"
    and doc: "holds_document (files s p)"
    and wr: "write_outcome s p = WriteOk"
  shows "\<exists>ex mg db. stored (files s p) = JObj ex
     \<and> save_alerts_to_file p s =
         (Inr (), s\<lparr>alerts_database := JObj db, files := (files s)(p := Content (JObj mg))\<rparr>)
     \<and> map_of mg = (map_of ex)
          (''active_alerts'' \<mapsto> field_or_empty_list m ''active_alerts'',
           ''read_alerts'' \<mapsto> field_or_empty_list m ''read_alerts'',
           ''alerts_by_time'' \<mapsto> JObj (dict_update (by_time_of (JObj ex)) ma))
     \<and> distinct (map fst mg)
     \<and> map_of db = map_of m ++ map_of mg"
proof -
  from holds_document_shape [OF doc] have nu: "\<And>msg. files s p \<noteq> Unreadable msg"
    and "is_document (stored (files s p))"
    by blast+
  then obtain ex where ex: "stored (files s p) = JObj ex"
    and dex: "distinct (map fst ex)"
    and sh: "map_of ex ''alerts_by_time'' = None \<or> (\<exists>t. map_of ex ''alerts_by_time'' = Some (JObj t))"
    using is_document_shape by blast
  from merge_alerts_obj [OF bt sh] dex obtain mg where
    mg: "merge_alerts (JObj ex) (JObj m) = Inr (JObj mg)"
    and mm: "map_of mg = (map_of ex)
          (''active_alerts'' \<mapsto> field_or_empty_list m ''active_alerts'',
           ''read_alerts'' \<mapsto> field_or_empty_list m ''read_alerts'',
           ''alerts_by_time'' \<mapsto> JObj (dict_update (by_time_of (JObj ex)) ma))"
    and dm: "distinct (map fst mg)"
    by blast
  have "save_alerts_to_file p s =
         (Inr (), s\<lparr>alerts_database := JObj (dict_update m mg),
                    files := (files s)(p := Content (JObj mg))\<rparr>)"
  proof (cases "files s p")
    case (Unreadable msg)
    with nu show ?thesis by blast
  qed (use ex mg wr db in \<open>simp_all add: save_alerts_to_file_def\<close>)
  moreover have "map_of (dict_update m mg) = map_of m ++ map_of mg"
    using dm by (rule map_of_dict_update)
  ultimately show ?thesis using ex mm dm by blast
qed

section \<open>Adding an alert\<close>

lemma dict_setitem_append:
  "k \<notin> fst ` set pre \<Longrightarrow> dict_setitem k v (pre @ rest) = pre @ dict_setitem k v rest"
  by (induction pre) auto

lemma dict_setitem_absent:
  "map_of kvs k = None \<Longrightarrow> dict_setitem k v kvs = kvs @ [(k, v)]"
  by (induction kvs) (auto split: if_splits)

lemma dict_update_append:
  "dict_update kvs (xs @ ys) = dict_update (dict_update kvs xs) ys"
  by (induction xs arbitrary: kvs) auto

lemma dict_update_same_keys:
  "distinct (map fst ys) \<Longrightarrow> map fst xs = map fst ys \<Longrightarrow> fst ` set pre \<inter> fst ` set ys = {} \<Longrightarrow>
   dict_update (pre @ xs) ys = pre @ ys"
proof (induction ys arbitrary: xs pre)
  case Nil
  then show ?case by simp
next
  case (Cons y ys)
  obtain k v where y: "y = (k, v)" by (cases y)
  from Cons.prems(2) y obtain v' xs' where xs: "xs = (k, v') # xs'" and ks: "map fst xs' = map fst ys"
    by (cases xs) auto
  have kpre: "k \<notin> fst ` set pre" using Cons.prems(3) y by auto
  have "dict_update (pre @ xs) (y # ys) = dict_update (pre @ (k, v) # xs') ys"
    using y xs kpre by (simp add: dict_setitem_append)
  also have "\<dots> = dict_update ((pre @ [(k, v)]) @ xs') ys" by simp
  also have "\<dots> = (pre @ [(k, v)]) @ ys"
  proof (rule Cons.IH)
    show "distinct (map fst ys)" using Cons.prems(1) by simp
    show "map fst xs' = map fst ys" by (rule ks)
    show "fst ` set (pre @ [(k, v)]) \<inter> fst ` set ys = {}"
      using Cons.prems(1,3) y by auto
  qed
  finally show ?case using y by simp
qed

lemma dict_update_setitem:
  assumes "distinct (map fst kvs)"
  shows "dict_update kvs (dict_setitem k v kvs) = dict_setitem k v kvs"
proof -
  have self: "dict_update kvs kvs = kvs"
    using dict_update_same_keys [of kvs kvs "[]"] assms by simp
  show ?thesis
  proof (cases "map_of kvs k")
    case None
    then show ?thesis by (simp add: dict_setitem_absent dict_update_append self)
  next
    case (Some v')
    then have "map fst kvs = map fst (dict_setitem k v kvs)"
      by (simp add: keys_dict_setitem_present)
    with dict_update_same_keys [of "dict_setitem k v kvs" kvs "[]"] assms
    show ?thesis by (simp add: distinct_dict_setitem)
  qed
qed

lemma map_add_self: "m ++ m = m"
  by (auto simp: fun_eq_iff map_add_def split: option.splits)

lemma load_document:
  assumes "holds_document (files s p)"
  shows "\<exists>L. load_alerts_from_file p s = (Inr (), s\<lparr>alerts_database := JObj L\<rparr>)
     \<and> distinct (map fst L)
     \<and> map_of L = defaults ++ fields_of (stored (files s p))
     \<and> map_of L ''alerts_by_time'' = Some (JObj (by_time_of (stored (files s p))))"
proof -
  from holds_document_shape [OF assms] have nu: "\<And>msg. files s p \<noteq> Unreadable msg"
    and "is_document (stored (files s p))"
    by blast+
  then obtain ex where ex: "stored (files s p) = JObj ex"
    and dex: "distinct (map fst ex)"
    and sh: "map_of ex ''alerts_by_time'' = None \<or> (\<exists>t. map_of ex ''alerts_by_time'' = Some (JObj t))"
    using is_document_shape by blast
  have bt: "(defaults ++ map_of ex) ''alerts_by_time'' = Some (JObj (by_time_of (JObj ex)))"
    using sh by (auto simp: by_time_of_def fields_of_def map_add_def defaults_simps)
  have "\<exists>L. load_alerts_from_file p s = (Inr (), s\<lparr>alerts_database := JObj L\<rparr>)
     \<and> distinct (map fst L) \<and> map_of L = defaults ++ map_of ex"
  proof (cases "files s p")
    case (Unreadable msg)
    with nu show ?thesis by blast
  next
    case (Content d)
    with ex have f: "files s p = Content (JObj ex)" by (simp add: stored_def)
    from load_obj [OF f] dex show ?thesis by blast
  next
    case Missing
    then have e: "JObj ex = empty_database" using ex by (simp add: stored_def)
    then have "map_of ex = defaults"
      unfolding defaults_def e [symmetric] by (simp add: fields_of_def)
    then have "map_of ex = defaults ++ map_of ex" by (simp add: map_add_self)
    moreover have "load_alerts_from_file p s = (Inr (), s\<lparr>alerts_database := JObj ex\<rparr>)"
      using Missing e by (simp add: load_missing)
    ultimately show ?thesis using dex by blast
  next
    case Corrupt
    then have e: "JObj ex = empty_database" using ex by (simp add: stored_def)
    then have "map_of ex = defaults"
      unfolding defaults_def e [symmetric] by (simp add: fields_of_def)
    then have "map_of ex = defaults ++ map_of ex" by (simp add: map_add_self)
    moreover have "load_alerts_from_file p s = (Inr (), s\<lparr>alerts_database := JObj ex\<rparr>)"
      using Corrupt e by (simp add: load_missing)
    ultimately show ?thesis using dex by blast
  qed
  then obtain L where l: "load_alerts_from_file p s = (Inr (), s\<lparr>alerts_database := JObj L\<rparr>)"
    and d: "distinct (map fst L)" and m: "map_of L = defaults ++ map_of ex"
    by blast
  have m': "map_of L = defaults ++ fields_of (stored (files s p))"
    using m ex by (simp add: fields_of_def)
  have b: "map_of L ''alerts_by_time'' = Some (JObj (by_time_of (stored (files s p))))"
    using m bt ex by simp
  show ?thesis
    by (rule exI [of _ L]) (intro conjI l d m' b)
qed

lemma add_alert_by_time_unfold:
  assumes "holds_document (files s p)"
  shows "\<exists>L. load_alerts_from_file p s = (Inr (), s\<lparr>alerts_database := JObj L\<rparr>)
     \<and> distinct (map fst L)
     \<and> map_of L = defaults ++ fields_of (stored (files s p))
     \<and> add_alert_by_time h par v msg p s =
         save_alerts_to_file p
           (s\<lparr>alerts_database := JObj
               (dict_setitem ''alerts_by_time''
                  (JObj (dict_setitem h (new_alert par v msg) (by_time_of (stored (files s p))))) L)\<rparr>)"
proof -
  from load_document [OF assms] obtain L where
    l: "load_alerts_from_file p s = (Inr (), s\<lparr>alerts_database := JObj L\<rparr>)"
    and d: "distinct (map fst L)"
    and m: "map_of L = defaults ++ fields_of (stored (files s p))"
    and b: "map_of L ''alerts_by_time'' = Some (JObj (by_time_of (stored (files s p))))"
    by blast
  have "add_alert_by_time h par v msg p s =
         save_alerts_to_file p
           (s\<lparr>alerts_database := JObj
               (dict_setitem ''alerts_by_time''
                  (JObj (dict_setitem h (new_alert par v msg) (by_time_of (stored (files s p))))) L)\<rparr>)"
    using l b by (simp add: add_alert_by_time_def)
  with l d m show ?thesis by blast
qed

lemma add_alert_by_time_ok:
  assumes doc: "holds_document (files s p)"
    and wr: "write_outcome s p = WriteOk"
  shows "\<exists>mg db. add_alert_by_time h par v msg p s =
         (Inr (), s\<lparr>alerts_database := JObj db, files := (files s)(p := Content (JObj mg))\<rparr>)
     \<and> distinct (map fst mg)
     \<and> map_of db = map_of mg
     \<and> map_of mg = (defaults ++ fields_of (stored (files s p)))
          (''alerts_by_time'' \<mapsto>
             JObj (dict_setitem h (new_alert par v msg) (by_time_of (stored (files s p)))))"
proof -
  let ?bt = "by_time_of (stored (files s p))"
  let ?bt' = "dict_setitem h (new_alert par v msg) ?bt"
  from add_alert_by_time_unfold [OF doc, of h par v msg] obtain L where
    m: "map_of L = defaults ++ fields_of (stored (files s p))"
    and a: "add_alert_by_time h par v msg p s =
         save_alerts_to_file p (s\<lparr>alerts_database := JObj (dict_setitem ''alerts_by_time'' (JObj ?bt') L)\<rparr>)"
    by blast
  let ?L2 = "dict_setitem ''alerts_by_time'' (JObj ?bt') L"
  let ?s2 = "s\<lparr>alerts_database := JObj ?L2\<rparr>"
  have 1: "alerts_database ?s2 = JObj ?L2" by simp
  have 2: "map_of ?L2 ''alerts_by_time'' = Some (JObj ?bt')" by (simp add: map_of_dict_setitem)
  have 3: "holds_document (files ?s2 p)" using doc by simp
  have 4: "write_outcome ?s2 p = WriteOk" using wr by simp
  from save_obj [OF 1 2 3 4] obtain ex mg db where
    ex: "stored (files s p) = JObj ex"
    and r: "save_alerts_to_file p ?s2 =
         (Inr (), s\<lparr>alerts_database := JObj db, files := (files s)(p := Content (JObj mg))\<rparr>)"
    and mm: "map_of mg = (map_of ex)
          (''active_alerts'' \<mapsto> field_or_empty_list ?L2 ''active_alerts'',
           ''read_alerts'' \<mapsto> field_or_empty_list ?L2 ''read_alerts'',
           ''alerts_by_time'' \<mapsto> JObj (dict_update (by_time_of (JObj ex)) ?bt'))"
    and dm: "distinct (map fst mg)"
    and md: "map_of db = map_of ?L2 ++ map_of mg"
    by auto
  have dbt: "distinct (map fst ?bt)"
    using holds_document_shape(1) [OF doc] by (rule distinct_by_time_of)
  have upd: "dict_update (by_time_of (JObj ex)) ?bt' = ?bt'"
    using dict_update_setitem [OF dbt] ex by simp
  have fe: "fields_of (stored (files s p)) = map_of ex"
    using ex by (simp add: fields_of_def)
  have l2: "map_of ?L2 = (defaults ++ map_of ex)(''alerts_by_time'' \<mapsto> JObj ?bt')"
    using m fe by (simp add: map_of_dict_setitem)
  have mg: "map_of mg = (defaults ++ map_of ex)(''alerts_by_time'' \<mapsto> JObj ?bt')"
  proof
    fix k
    show "map_of mg k = ((defaults ++ map_of ex)(''alerts_by_time'' \<mapsto> JObj ?bt')) k"
      unfolding mm upd field_or_empty_list_def l2
      by (cases "map_of ex k")
         (auto simp: map_add_def defaults_simps split: option.splits)
  qed
  have dbm: "map_of db = map_of mg"
    unfolding md l2 mg by (rule map_add_self)
  have res: "add_alert_by_time h par v msg p s =
         (Inr (), s\<lparr>alerts_database := JObj db, files := (files s)(p := Content (JObj mg))\<rparr>)"
    using a r by simp
  have mg': "map_of mg = (defaults ++ fields_of (stored (files s p)))
          (''alerts_by_time'' \<mapsto> JObj ?bt')"
    using mg fe by simp
  show ?thesis
    by (rule exI [of _ mg], rule exI [of _ db]) (intro conjI res dm dbm mg')
qed

lemma save_write_fails_obj:
  assumes db: "alerts_database s = JObj m"
    and bt: "map_of m ''alerts_by_time'' = Some (JObj ma)"
    and doc: "holds_document (files s p)"
    and wr: "write_outcome s p \<noteq> WriteOk"
  shows "fst (save_alerts_to_file p s) = Inr ()
     \<and> alerts_database (snd (save_alerts_to_file p s)) = alerts_database s"
proof -
  from holds_document_shape [OF doc] have nu: "\<And>msg. files s p \<noteq> Unreadable msg"
    and "is_document (stored (files s p))"
    by blast+
  then obtain ex where ex: "stored (files s p) = JObj ex"
    and sh: "map_of ex ''alerts_by_time'' = None \<or> (\<exists>t. map_of ex ''alerts_by_time'' = Some (JObj t))"
    using is_document_shape by blast
  from merge_alerts_obj [OF bt sh] obtain mg where
    mg: "merge_alerts (JObj ex) (JObj m) = Inr (JObj mg)"
    by blast
  show ?thesis
  proof (cases "files s p")
    case (Unreadable msg)
    with nu show ?thesis by blast
  qed (use ex mg wr db in \<open>cases "write_outcome s p"; simp add: save_alerts_to_file_def\<close>)+
qed



lemma add_alert_by_time_result:
  assumes doc: "holds_document (files s p)"
    and wr: "write_outcome s p = WriteOk"
  shows "fst (add_alert_by_time h par v msg p s) = Inr ()"
    and "by_time_of (alerts_database (snd (add_alert_by_time h par v msg p s))) =
           dict_setitem h (new_alert par v msg) (by_time_of (stored (files s p)))"
    and "by_time_of (stored (files (snd (add_alert_by_time h par v msg p s)) p)) =
           dict_setitem h (new_alert par v msg) (by_time_of (stored (files s p)))"
    and "holds_document (files (snd (add_alert_by_time h par v msg p s)) p)"
    and "write_outcome (snd (add_alert_by_time h par v msg p s)) p = WriteOk"
    and "files (snd (add_alert_by_time h par v msg p s)) p =
           Content (stored (files (snd (add_alert_by_time h par v msg p s)) p))"
proof -
  let ?bt' = "dict_setitem h (new_alert par v msg) (by_time_of (stored (files s p)))"
  from add_alert_by_time_ok [OF doc wr, of h par v msg] obtain mg db where
    r: "add_alert_by_time h par v msg p s =
         (Inr (), s\<lparr>alerts_database := JObj db, files := (files s)(p := Content (JObj mg))\<rparr>)"
    and dm: "distinct (map fst mg)"
    and md: "map_of db = map_of mg"
    and mm: "map_of mg = (defaults ++ fields_of (stored (files s p)))(''alerts_by_time'' \<mapsto> JObj ?bt')"
    by blast
  have dbt: "distinct (map fst ?bt')"
    using holds_document_shape(1) [OF doc] by (intro distinct_dict_setitem distinct_by_time_of)
  show "fst (add_alert_by_time h par v msg p s) = Inr ()" using r by simp
  show "by_time_of (alerts_database (snd (add_alert_by_time h par v msg p s))) = ?bt'"
    using r md mm by (simp add: by_time_of_def fields_of_def)
  show "by_time_of (stored (files (snd (add_alert_by_time h par v msg p s)) p)) = ?bt'"
    using r mm by (simp add: by_time_of_def fields_of_def stored_def)
  show "holds_document (files (snd (add_alert_by_time h par v msg p s)) p)"
    using r mm dm dbt by (simp add: holds_document_def is_document_def stored_def)
  show "write_outcome (snd (add_alert_by_time h par v msg p s)) p = WriteOk"
    using r wr by simp
  show "files (snd (add_alert_by_time h par v msg p s)) p =
           Content (stored (files (snd (add_alert_by_time h par v msg p s)) p))"
    using r by (simp add: stored_def)
qed

lemma add_alert_by_time_memory:
  assumes doc: "holds_document (files s p)"
  shows "fst (add_alert_by_time h par v msg p s) = Inr ()
     \<and> by_time_of (alerts_database (snd (add_alert_by_time h par v msg p s))) =
           dict_setitem h (new_alert par v msg) (by_time_of (stored (files s p)))"
proof (cases "write_outcome s p = WriteOk")
  case True
  from add_alert_by_time_result(1,2) [OF doc True] show ?thesis by simp
next
  case False
  let ?bt' = "dict_setitem h (new_alert par v msg) (by_time_of (stored (files s p)))"
  from add_alert_by_time_unfold [OF doc, of h par v msg] obtain L where
    a: "add_alert_by_time h par v msg p s =
         save_alerts_to_file p (s\<lparr>alerts_database := JObj (dict_setitem ''alerts_by_time'' (JObj ?bt') L)\<rparr>)"
    by blast
  let ?L2 = "dict_setitem ''alerts_by_time'' (JObj ?bt') L"
  let ?s2 = "s\<lparr>alerts_database := JObj ?L2\<rparr>"
  have 1: "alerts_database ?s2 = JObj ?L2" by simp
  have 2: "map_of ?L2 ''alerts_by_time'' = Some (JObj ?bt')" by (simp add: map_of_dict_setitem)
  have 3: "holds_document (files ?s2 p)" using doc by simp
  have 4: "write_outcome ?s2 p \<noteq> WriteOk" using False by simp
  from save_write_fails_obj [OF 1 2 3 4] a 2 show ?thesis
    by (simp add: by_time_of_def fields_of_def)
qed

section \<open>What a save that gets through has done\<close>

lemma merge_by_time_success:
  assumes "merge_by_time items (JObj e) = Inr r"
  shows "\<exists>e'. r = JObj e' \<and> map fst e' = map fst e
     \<and> (\<forall>k. k \<noteq> ''alerts_by_time'' \<longrightarrow> map_of e' k = map_of e k)
     \<and> by_time_of (JObj e') = dict_update (by_time_of (JObj e)) items"
proof (cases items)
  case Nil
  with assms have "r = JObj e" by simp
  with Nil show ?thesis by simp
next
  case (Cons kv rest)
  obtain hour info where kv: "kv = (hour, info)" by (cases kv)
  from assms Cons kv obtain inner0 where g: "map_of e ''alerts_by_time'' = Some inner0"
    by (cases "map_of e ''alerts_by_time''") auto
  from assms Cons kv g obtain inner where i: "inner0 = JObj inner"
    by (cases inner0) auto
  from merge_by_time_obj [of e inner items] g i obtain e' where
    "merge_by_time items (JObj e) = Inr (JObj e')"
    "map_of e' = (map_of e)(''alerts_by_time'' \<mapsto> JObj (dict_update inner items))"
    "map fst e' = map fst e"
    by blast
  with assms g i show ?thesis
    by (auto simp: by_time_of_def fields_of_def)
qed

lemma merge_alerts_success:
  assumes "merge_alerts existing db = Inr r"
  shows "\<exists>ex m ma mg. existing = JObj ex \<and> db = JObj m
     \<and> map_of m ''alerts_by_time'' = Some (JObj ma) \<and> r = JObj mg
     \<and> by_time_of (JObj mg) = dict_update (by_time_of (JObj ex)) ma
     \<and> (\<forall>k. k \<noteq> ''alerts_by_time'' \<longrightarrow>
          map_of mg k = ((map_of ex)(''active_alerts'' \<mapsto> field_or_empty_list m ''active_alerts'',
                                     ''read_alerts'' \<mapsto> field_or_empty_list m ''read_alerts'')) k)
     \<and> map_of mg ''alerts_by_time'' \<noteq> None
     \<and> (distinct (map fst ex) \<longrightarrow> distinct (map fst mg))"
proof -
  from assms obtain m where m: "db = JObj m"
    by (cases db) (simp_all add: merge_alerts_def)
  from assms m obtain ex where ex: "existing = JObj ex"
    by (cases existing) (simp_all add: merge_alerts_def)
  let ?e2 = "dict_setitem ''read_alerts'' (field_or_empty_list m ''read_alerts'')
              (dict_setitem ''active_alerts'' (field_or_empty_list m ''active_alerts'') ex)"
  obtain e3 where e3: "ensure_key ''alerts_by_time'' (JObj []) (JObj ?e2) = Inr (JObj e3)"
    and e3m: "map_of e3 = [''alerts_by_time'' \<mapsto> JObj []] ++ map_of ?e2"
    and e3d: "distinct (map fst ?e2) \<longrightarrow> distinct (map fst e3)"
    using ensure_key_obj [of "''alerts_by_time''" "JObj []" ?e2] by blast
  from assms m ex e3 obtain by_time where bt: "map_of m ''alerts_by_time'' = Some by_time"
    by (cases "map_of m ''alerts_by_time''") (simp_all add: merge_alerts_def field_or_empty_list_def)
  from assms m ex e3 bt obtain ma where ma: "by_time = JObj ma"
    by (cases by_time) (simp_all add: merge_alerts_def field_or_empty_list_def)
  from assms m ex e3 bt ma have mr: "merge_by_time ma (JObj e3) = Inr r"
    by (simp add: merge_alerts_def field_or_empty_list_def)
  from merge_by_time_success [OF mr] obtain mg where
    r: "r = JObj mg" and k: "map fst mg = map fst e3"
    and o: "\<forall>k. k \<noteq> ''alerts_by_time'' \<longrightarrow> map_of mg k = map_of e3 k"
    and b: "by_time_of (JObj mg) = dict_update (by_time_of (JObj e3)) ma"
    by blast
  have "map_of e3 ''alerts_by_time'' =
      (case map_of ex ''alerts_by_time'' of None \<Rightarrow> Some (JObj []) | Some x \<Rightarrow> Some x)"
    unfolding e3m by (simp add: map_add_def map_of_dict_setitem split: option.splits)
  then have e3bt: "by_time_of (JObj e3) = by_time_of (JObj ex)"
    by (cases "map_of ex ''alerts_by_time''") (simp_all add: by_time_of_def fields_of_def)
  have 1: "by_time_of (JObj mg) = dict_update (by_time_of (JObj ex)) ma"
    using b e3bt by simp
  have 2: "\<forall>k. k \<noteq> ''alerts_by_time'' \<longrightarrow>
          map_of mg k = ((map_of ex)(''active_alerts'' \<mapsto> field_or_empty_list m ''active_alerts'',
                                     ''read_alerts'' \<mapsto> field_or_empty_list m ''read_alerts'')) k"
    using o unfolding e3m by (auto simp: map_add_def map_of_dict_setitem split: option.splits)
  have "''alerts_by_time'' \<in> fst ` set e3"
    using e3m by (auto simp: dom_map_of_conv_image_fst [symmetric] map_add_def dom_def split: option.splits)
  then have "''alerts_by_time'' \<in> fst ` set mg"
    using k by (metis list.set_map)
  then have 3: "map_of mg ''alerts_by_time'' \<noteq> None"
    by (simp add: map_of_eq_None_iff)
  have 4: "distinct (map fst ex) \<longrightarrow> distinct (map fst mg)"
    using e3d k by (simp add: distinct_dict_setitem)
  show ?thesis
    by (rule exI [of _ ex], rule exI [of _ m], rule exI [of _ ma], rule exI [of _ mg])
       (intro conjI ex m r 1 2 3 4, use bt ma in simp)
qed

lemma save_outcomes:
  obtains (unreadable) msg where "files s p = Unreadable (OsFailure msg)"
      and "save_alerts_to_file p s = (Inr (), s\<lparr>stdout := stdout s @ [error_line msg]\<rparr>)"
  | (raises) e where "save_alerts_to_file p s = (Inl e, s)"
  | (open_fails) msg where "write_outcome s p = OpenFails msg"
      and "save_alerts_to_file p s = (Inr (), s\<lparr>stdout := stdout s @ [error_line msg]\<rparr>)"
  | (write_fails) msg where "write_outcome s p = WriteFails msg"
      and "save_alerts_to_file p s =
            (Inr (), s\<lparr>files := (files s)(p := Corrupt), stdout := stdout s @ [error_line msg]\<rparr>)"
  | (written) m mg where "alerts_database s = JObj m"
      and "merge_alerts (stored (files s p)) (JObj m) = Inr (JObj mg)"
      and "write_outcome s p = WriteOk"
      and "save_alerts_to_file p s =
            (Inr (), s\<lparr>alerts_database := JObj (dict_update m mg),
                       files := (files s)(p := Content (JObj mg))\<rparr>)"
proof (cases "\<exists>f. files s p = Unreadable f")
  case True
  then obtain f where u: "files s p = Unreadable f" by blast
  show ?thesis
  proof (cases f)
    case (OsFailure msg)
    with u have "save_alerts_to_file p s = (Inr (), s\<lparr>stdout := stdout s @ [error_line msg]\<rparr>)"
      by (simp add: save_alerts_to_file_def)
    with u OsFailure show ?thesis by (intro unreadable) simp_all
  next
    case DecodeFailure
    with u have "save_alerts_to_file p s = (Inl UnicodeDecodeError, s)"
      by (simp add: save_alerts_to_file_def)
    then show ?thesis by (rule raises)
  qed
next
  case False
  then have unf: "save_alerts_to_file p s =
    (case merge_alerts (stored (files s p)) (alerts_database s) of
             Inl e \<Rightarrow> (Inl e, s)
           | Inr existing_data \<Rightarrow>
               (case write_outcome s p of
                  OpenFails msg \<Rightarrow> (Inr (), s\<lparr>stdout := stdout s @ [error_line msg]\<rparr>)
                | WriteFails msg \<Rightarrow>
                    (Inr (), s\<lparr>files := (files s)(p := Corrupt),
                                stdout := stdout s @ [error_line msg]\<rparr>)
                | WriteOk \<Rightarrow>
                    (case py_update (alerts_database s) existing_data of
                       Inl e \<Rightarrow> (Inl e, s\<lparr>files := (files s)(p := Content existing_data)\<rparr>)
                     | Inr db \<Rightarrow>
                         (Inr (), s\<lparr>alerts_database := db,
                                     files := (files s)(p := Content existing_data)\<rparr>))))"
    by (cases "files s p") (simp_all add: save_alerts_to_file_def)
  show ?thesis
  proof (cases "merge_alerts (stored (files s p)) (alerts_database s)")
    case (Inl e)
    with unf have "save_alerts_to_file p s = (Inl e, s)" by simp
    then show ?thesis by (rule raises)
  next
    case (Inr r)
    from merge_alerts_success [OF Inr] obtain m mg where
      m: "alerts_database s = JObj m" and r: "r = JObj mg"
      by blast
    show ?thesis
    proof (cases "write_outcome s p")
      case WriteOk
      have "save_alerts_to_file p s =
            (Inr (), s\<lparr>alerts_database := JObj (dict_update m mg),
                       files := (files s)(p := Content (JObj mg))\<rparr>)"
        using unf Inr WriteOk m r by simp
      with m Inr r WriteOk show ?thesis by (intro written) simp_all
    next
      case (OpenFails msg)
      with unf Inr show ?thesis by (intro open_fails) simp_all
    next
      case (WriteFails msg)
      with unf Inr show ?thesis by (intro write_fails) simp_all
    qed
  qed
qed

lemma list_all_dict_setitem:
  "list_all P kvs \<Longrightarrow> P (k, v) \<Longrightarrow> list_all P (dict_setitem k v kvs)"
  by (induction kvs) auto

lemma list_all_dict_update:
  "list_all P kvs \<Longrightarrow> list_all P new \<Longrightarrow> list_all P (dict_update kvs new)"
  by (induction new arbitrary: kvs) (auto simp: list_all_dict_setitem)

lemma records_ok_not_dict:
  assumes "\<And>kvs. d \<noteq> JObj kvs"
  shows "records_ok d"
proof (cases d)
  case (JObj kvs)
  with assms show ?thesis by blast
qed (simp_all add: records_ok_def by_time_of_def fields_of_def)

lemma records_ok_empty [simp]: "records_ok empty_database"
  by (simp add: records_ok_def by_time_of_def fields_of_def empty_database_def)

lemma records_ok_ensure_key:
  assumes "records_ok d" and "ensure_key k (dflt) d = Inr d'"
    and "dflt = JObj [] \<or> dflt = JList []"
  shows "records_ok d'"
proof (cases d)
  case (JObj kvs)
  show ?thesis
  proof (cases "k \<in> fst ` set kvs")
    case True
    with assms JObj show ?thesis by (simp add: ensure_key_def)
  next
    case False
    with assms(2) JObj have d': "d' = JObj (dict_setitem k dflt kvs)"
      by (simp add: ensure_key_def)
    show ?thesis
    proof (cases "k = ''alerts_by_time''")
      case True
      with d' assms(3) show ?thesis
        by (auto simp: records_ok_def by_time_of_def fields_of_def map_of_dict_setitem)
    next
      case False
      with d' assms(1) JObj show ?thesis
        by (simp add: records_ok_def by_time_of_def fields_of_def map_of_dict_setitem)
    qed
  qed
next
  case JNull
  with assms(2) show ?thesis by (simp add: ensure_key_def)
next
  case (JBool b)
  with assms(2) show ?thesis by (simp add: ensure_key_def)
next
  case (JInt i)
  with assms(2) show ?thesis by (simp add: ensure_key_def)
next
  case (JStr x)
  with assms(2) show ?thesis
    by (auto simp: ensure_key_def split: if_splits intro: records_ok_not_dict)
next
  case (JList xs)
  with assms(2) show ?thesis
    by (auto simp: ensure_key_def split: if_splits intro: records_ok_not_dict)
qed

lemma load_keeps_records:
  assumes "records_ok (alerts_database s)" and "records_ok (stored (files s p))"
  shows "records_ok (alerts_database (snd (load_alerts_from_file p s)))"
    and "files (snd (load_alerts_from_file p s)) = files s"
    and "write_outcome (snd (load_alerts_from_file p s)) = write_outcome s"
proof -
  have "records_ok (alerts_database (snd (load_alerts_from_file p s)))
    \<and> files (snd (load_alerts_from_file p s)) = files s
    \<and> write_outcome (snd (load_alerts_from_file p s)) = write_outcome s"
  proof (cases "files s p")
    case (Content data)
    with assms(2) have d: "records_ok data" by (simp add: stored_def)
    show ?thesis
    proof (cases "ensure_key ''alerts_by_time'' (JObj []) data")
      case (Inl e)
      with Content d show ?thesis by (simp add: load_alerts_from_file_def)
    next
      case (Inr d1)
      with d have d1: "records_ok d1" by (auto intro: records_ok_ensure_key)
      show ?thesis
      proof (cases "ensure_key ''active_alerts'' (JList []) d1")
        case (Inl e)
        with Content \<open>ensure_key ''alerts_by_time'' (JObj []) data = Inr d1\<close> d1
        show ?thesis by (simp add: load_alerts_from_file_def)
      next
        case d2: (Inr d2)
        with d1 have r2: "records_ok d2" by (auto intro: records_ok_ensure_key)
        show ?thesis
        proof (cases "ensure_key ''read_alerts'' (JList []) d2")
          case (Inl e)
          with Content Inr d2 r2 show ?thesis by (simp add: load_alerts_from_file_def)
        next
          case d3: (Inr d3)
          with r2 have "records_ok d3" by (auto intro: records_ok_ensure_key)
          with Content Inr d2 d3 show ?thesis by (simp add: load_alerts_from_file_def)
        qed
      qed
    qed
  qed (use assms in \<open>simp_all add: load_alerts_from_file_def split: read_failure.splits\<close>)
  then show "records_ok (alerts_database (snd (load_alerts_from_file p s)))"
    and "files (snd (load_alerts_from_file p s)) = files s"
    and "write_outcome (snd (load_alerts_from_file p s)) = write_outcome s"
    by blast+
qed

section \<open>Records with four fields\<close>

lemma records_ok_dict:
  "records_ok (JObj kvs) =
     list_all (\<lambda>kv. has_four_fields (snd kv)) (by_time_of (JObj kvs))"
  by (simp add: records_ok_def)

lemma by_time_of_same_field:
  "map_of a ''alerts_by_time'' = map_of b ''alerts_by_time'' \<Longrightarrow>
   by_time_of (JObj a) = by_time_of (JObj b)"
  by (simp add: by_time_of_def fields_of_def)

lemma save_keeps_records:
  assumes mem: "records_ok (alerts_database s)"
    and disk: "records_ok (stored (files s p))"
    and dk: "distinct_keys (stored (files s p))"
  shows "records_ok (alerts_database (snd (save_alerts_to_file p s)))
     \<and> records_ok (stored (files (snd (save_alerts_to_file p s)) p))
     \<and> distinct_keys (stored (files (snd (save_alerts_to_file p s)) p))"
proof (rule save_outcomes [of s p])
  fix msg
  assume "save_alerts_to_file p s = (Inr (), s\<lparr>stdout := stdout s @ [error_line msg]\<rparr>)"
  with assms show ?thesis by simp
next
  fix e
  assume "save_alerts_to_file p s = (Inl e, s)"
  with assms show ?thesis by simp
next
  fix msg
  assume "save_alerts_to_file p s = (Inr (), s\<lparr>stdout := stdout s @ [error_line msg]\<rparr>)"
  with assms show ?thesis by simp
next
  fix msg
  assume "save_alerts_to_file p s =
            (Inr (), s\<lparr>files := (files s)(p := Corrupt), stdout := stdout s @ [error_line msg]\<rparr>)"
  with mem show ?thesis
    by (simp add: stored_def distinct_keys_def empty_database_def [symmetric])
       (simp add: empty_database_def)
next
  fix m mg
  assume m: "alerts_database s = JObj m"
    and mr: "merge_alerts (stored (files s p)) (JObj m) = Inr (JObj mg)"
    and r: "save_alerts_to_file p s =
            (Inr (), s\<lparr>alerts_database := JObj (dict_update m mg),
                       files := (files s)(p := Content (JObj mg))\<rparr>)"
  from merge_alerts_success [OF mr] obtain ex ma where
    ex: "stored (files s p) = JObj ex"
    and ma: "map_of m ''alerts_by_time'' = Some (JObj ma)"
    and bt: "by_time_of (JObj mg) = dict_update (by_time_of (JObj ex)) ma"
    and has: "map_of mg ''alerts_by_time'' \<noteq> None"
    and d: "distinct (map fst ex) \<longrightarrow> distinct (map fst mg)"
    by auto
  have dmg: "distinct (map fst mg)" using d dk ex by (simp add: distinct_keys_def)
  have "by_time_of (JObj m) = ma" using ma by (simp add: by_time_of_def fields_of_def)
  then have lma: "list_all (\<lambda>kv. has_four_fields (snd kv)) ma"
    using mem m by (simp add: records_ok_def)
  have lex: "list_all (\<lambda>kv. has_four_fields (snd kv)) (by_time_of (JObj ex))"
    using disk ex by (simp add: records_ok_def)
  have okmg: "records_ok (JObj mg)"
    unfolding records_ok_dict bt using lex lma by (rule list_all_dict_update)
  have "map_of (dict_update m mg) ''alerts_by_time'' = map_of mg ''alerts_by_time''"
    using has by (auto simp: map_of_dict_update [OF dmg] map_add_def split: option.splits)
  then have "by_time_of (JObj (dict_update m mg)) = by_time_of (JObj mg)"
    by (rule by_time_of_same_field)
  then have "records_ok (JObj (dict_update m mg))"
    using okmg by (simp add: records_ok_def)
  with r okmg dmg show ?thesis by (simp add: stored_def distinct_keys_def)
qed

lemma add_alert_by_time_steps:
  obtains (stops) "snd (add_alert_by_time h par v msg p s) = snd (load_alerts_from_file p s)"
  | (saves) L bt where "alerts_database (snd (load_alerts_from_file p s)) = JObj L"
      and "map_of L ''alerts_by_time'' = Some (JObj bt)"
      and "add_alert_by_time h par v msg p s =
             save_alerts_to_file p ((snd (load_alerts_from_file p s))
               \<lparr>alerts_database := JObj (dict_setitem ''alerts_by_time''
                  (JObj (dict_setitem h (new_alert par v msg) bt)) L)\<rparr>)"
proof -
  obtain res s1 where l: "load_alerts_from_file p s = (res, s1)"
    by (cases "load_alerts_from_file p s")
  show ?thesis
  proof (cases res)
    case (Inl e)
    with l have "snd (add_alert_by_time h par v msg p s) = snd (load_alerts_from_file p s)"
      by (simp add: add_alert_by_time_def)
    then show ?thesis by (rule stops)
  next
    case (Inr u)
    show ?thesis
    proof (cases "alerts_database s1")
      case (JObj L)
      show ?thesis
      proof (cases "map_of L ''alerts_by_time''")
        case None
        with l Inr JObj have "snd (add_alert_by_time h par v msg p s) = snd (load_alerts_from_file p s)"
          by (simp add: add_alert_by_time_def)
        then show ?thesis by (rule stops)
      next
        case (Some by_time)
        show ?thesis
        proof (cases by_time)
          case bt: (JObj bt)
          have "add_alert_by_time h par v msg p s =
             save_alerts_to_file p ((snd (load_alerts_from_file p s))
               \<lparr>alerts_database := JObj (dict_setitem ''alerts_by_time''
                  (JObj (dict_setitem h (new_alert par v msg) bt)) L)\<rparr>)"
            using l Inr JObj Some bt by (simp add: add_alert_by_time_def)
          moreover have "alerts_database (snd (load_alerts_from_file p s)) = JObj L"
            using l JObj by simp
          moreover have "map_of L ''alerts_by_time'' = Some (JObj bt)"
            using Some bt by simp
          ultimately show ?thesis by (intro saves)
        qed (use l Inr JObj Some in \<open>(intro stops, simp add: add_alert_by_time_def)+\<close>)
      qed
    qed (use l Inr in \<open>(intro stops, simp add: add_alert_by_time_def)+\<close>)
  qed
qed

lemma has_four_fields_new_alert: "has_four_fields (new_alert par v msg)"
  by (simp add: has_four_fields_def new_alert_def)

lemma add_keeps_records:
  assumes mem: "records_ok (alerts_database s)"
    and disk: "records_ok (stored (files s p))"
    and dk: "distinct_keys (stored (files s p))"
  shows "records_ok (alerts_database (snd (add_alert_by_time h par v msg p s)))
     \<and> records_ok (stored (files (snd (add_alert_by_time h par v msg p s)) p))"
proof (rule add_alert_by_time_steps [of h par v msg p s])
  assume "snd (add_alert_by_time h par v msg p s) = snd (load_alerts_from_file p s)"
  with load_keeps_records [OF mem disk] disk show ?thesis by simp
next
  fix L bt
  let ?s1 = "snd (load_alerts_from_file p s)"
  let ?db = "JObj (dict_setitem ''alerts_by_time''
                  (JObj (dict_setitem h (new_alert par v msg) bt)) L)"
  assume L: "alerts_database ?s1 = JObj L"
    and bt: "map_of L ''alerts_by_time'' = Some (JObj bt)"
    and a: "add_alert_by_time h par v msg p s = save_alerts_to_file p (?s1\<lparr>alerts_database := ?db\<rparr>)"
  note l = load_keeps_records [OF mem disk]
  have "by_time_of (JObj L) = bt" using bt by (simp add: by_time_of_def fields_of_def)
  then have "list_all (\<lambda>kv. has_four_fields (snd kv)) bt"
    using l(1) L by (simp add: records_ok_def)
  then have "list_all (\<lambda>kv. has_four_fields (snd kv)) (dict_setitem h (new_alert par v msg) bt)"
    by (rule list_all_dict_setitem) (simp add: has_four_fields_new_alert)
  then have 1: "records_ok (alerts_database (?s1\<lparr>alerts_database := ?db\<rparr>))"
    by (simp add: records_ok_def by_time_of_def fields_of_def map_of_dict_setitem)
  have 2: "records_ok (stored (files (?s1\<lparr>alerts_database := ?db\<rparr>) p))"
    using disk l(2) by simp
  have 3: "distinct_keys (stored (files (?s1\<lparr>alerts_database := ?db\<rparr>) p))"
    using dk l(2) by simp
  from save_keeps_records [OF 1 2 3] a show ?thesis by simp
qed

lemma queries_state:
  "snd (get_alerts_by_time p s) = snd (load_alerts_from_file p s)"
  "snd (get_unread_alerts p s) = snd (load_alerts_from_file p s)"
  by (simp_all add: get_alerts_by_time_def get_unread_alerts_def
        split: prod.splits sum.splits)

lemma save_written:
  assumes ok: "fst (save_alerts_to_file p s) = Inr ()"
    and quiet: "stdout (snd (save_alerts_to_file p s)) = stdout s"
  obtains m mg where "alerts_database s = JObj m"
    and "merge_alerts (stored (files s p)) (JObj m) = Inr (JObj mg)"
    and "save_alerts_to_file p s =
            (Inr (), s\<lparr>alerts_database := JObj (dict_update m mg),
                       files := (files s)(p := Content (JObj mg))\<rparr>)"
proof (rule save_outcomes [of s p])
  fix msg
  assume "save_alerts_to_file p s = (Inr (), s\<lparr>stdout := stdout s @ [error_line msg]\<rparr>)"
  with quiet show ?thesis by simp
next
  fix e
  assume "save_alerts_to_file p s = (Inl e, s)"
  with ok show ?thesis by simp
next
  fix msg
  assume "save_alerts_to_file p s = (Inr (), s\<lparr>stdout := stdout s @ [error_line msg]\<rparr>)"
  with quiet show ?thesis by simp
next
  fix msg
  assume "save_alerts_to_file p s =
            (Inr (), s\<lparr>files := (files s)(p := Corrupt), stdout := stdout s @ [error_line msg]\<rparr>)"
  with quiet show ?thesis by simp
next
  fix m mg
  assume "alerts_database s = JObj m"
    and "merge_alerts (stored (files s p)) (JObj m) = Inr (JObj mg)"
    and "save_alerts_to_file p s =
            (Inr (), s\<lparr>alerts_database := JObj (dict_update m mg),
                       files := (files s)(p := Content (JObj mg))\<rparr>)"
  then show ?thesis by (rule that)
qed

lemma unread_of_records:
  "list_all read_is_boolean alerts \<Longrightarrow> unread_of alerts = Inr (filter spec_unread alerts)"
proof (induction alerts)
  case Nil
  then show ?case by simp
next
  case (Cons a alerts)
  from Cons.prems obtain fs where a: "a = JObj fs"
    by (cases a) (simp_all add: read_is_boolean_def)
  from Cons.prems a have "map_of fs ''read'' = None \<or> (\<exists>b. map_of fs ''read'' = Some (JBool b))"
    by (cases "map_of fs ''read''"; cases "the (map_of fs ''read'')")
       (simp_all add: read_is_boolean_def)
  then have "(\<not> py_truthy (case map_of fs ''read'' of None \<Rightarrow> JBool False | Some v \<Rightarrow> v))
      = spec_unread a"
    using a by (auto simp: spec_unread_def fields_of_def)
  with Cons a show ?case by simp
qed

lemma first_with_date_find:
  "list_all has_date data_list \<Longrightarrow>
   first_with_date data_list date =
     Inr (case find (\<lambda>item. fields_of item ''Date'' = Some (JStr date)) data_list of
            None \<Rightarrow> JObj [] | Some item \<Rightarrow> item)"
proof (induction data_list)
  case Nil
  then show ?case by simp
next
  case (Cons item rest)
  from Cons.prems obtain fs d where i: "item = JObj fs" and d: "map_of fs ''Date'' = Some d"
    by (cases item) (auto simp: has_date_def fields_of_def)
  with Cons show ?case by (simp add: fields_of_def)
qed


lemma by_time_of_stored: "by_time_of (stored on_disk) = file_by_time on_disk"
proof (cases on_disk)
  case (Content d)
  then show ?thesis
    by (cases d) (simp_all add: stored_def by_time_of_def fields_of_def file_by_time_def)
qed (simp_all add: stored_def by_time_of_def fields_of_def file_by_time_def empty_database_def)

lemma undecodable_file_raises:
  assumes "files s p = Unreadable DecodeFailure"
  shows "load_alerts_from_file p s = (Inl UnicodeDecodeError, s)"
    and "save_alerts_to_file p s = (Inl UnicodeDecodeError, s)"
  using assms by (simp_all add: load_alerts_from_file_def save_alerts_to_file_def)

section \<open>The claims\<close>

subsection \<open>C1: what a save writes\<close>

text \<open>
  Claim C1, as amended. Let the global be a dict whose \<open>alerts_by_time\<close> is a dict, let
  the path hold a document (no file, text that decodes and is not JSON, or a dict whose
  \<open>alerts_by_time\<close>, when present, is a dict) and let the write succeed. Then
  \<open>save_alerts_to_file\<close> returns normally and writes a merged dict in which \<open>active_alerts\<close>
  and \<open>read_alerts\<close> are the global's values (the empty list for one the global lacks) and
  \<open>alerts_by_time\<close> is the map the file had, overridden key by key with the global's map,
  so an hour that only the file had stays with its record. Afterwards the global holds
  every field of the merged dict with the merged value; a field that only the global had
  stays in the global.
\<close>

theorem save_alerts_to_file_merges:
  assumes db: "alerts_database s = JObj m"
    and bt: "map_of m ''alerts_by_time'' = Some (JObj ma)"
    and dma: "distinct (map fst ma)"
    and doc: "holds_document (files s p)"
    and wr: "write_outcome s p = WriteOk"
  shows "\<exists>mg db'. save_alerts_to_file p s =
         (Inr (), s\<lparr>alerts_database := JObj db', files := (files s)(p := Content (JObj mg))\<rparr>)
     \<and> map_of mg ''active_alerts'' = Some (field_or_empty_list m ''active_alerts'')
     \<and> map_of mg ''read_alerts'' = Some (field_or_empty_list m ''read_alerts'')
     \<and> (\<exists>t. map_of mg ''alerts_by_time'' = Some (JObj t)
           \<and> map_of t = map_of (file_by_time (files s p)) ++ map_of ma)
     \<and> map_of db' = map_of m ++ map_of mg"
proof -
  from save_obj [OF db bt doc wr] obtain ex mg db' where
    ex: "stored (files s p) = JObj ex"
    and r: "save_alerts_to_file p s =
         (Inr (), s\<lparr>alerts_database := JObj db', files := (files s)(p := Content (JObj mg))\<rparr>)"
    and mm: "map_of mg = (map_of ex)
          (''active_alerts'' \<mapsto> field_or_empty_list m ''active_alerts'',
           ''read_alerts'' \<mapsto> field_or_empty_list m ''read_alerts'',
           ''alerts_by_time'' \<mapsto> JObj (dict_update (by_time_of (JObj ex)) ma))"
    and md: "map_of db' = map_of m ++ map_of mg"
    by blast
  have fb: "by_time_of (JObj ex) = file_by_time (files s p)"
    using by_time_of_stored [of "files s p"] ex by simp
  have "map_of (dict_update (by_time_of (JObj ex)) ma) = map_of (by_time_of (JObj ex)) ++ map_of ma"
    using dma by (rule map_of_dict_update)
  then have 3: "\<exists>t. map_of mg ''alerts_by_time'' = Some (JObj t)
           \<and> map_of t = map_of (file_by_time (files s p)) ++ map_of ma"
    using mm fb by simp
  have 1: "map_of mg ''active_alerts'' = Some (field_or_empty_list m ''active_alerts'')"
    and 2: "map_of mg ''read_alerts'' = Some (field_or_empty_list m ''read_alerts'')"
    using mm by simp_all
  show ?thesis
    by (rule exI [of _ mg], rule exI [of _ db']) (intro conjI r 1 2 3 md)
qed

text \<open>
  The theorem at \<open>example_state\<close> and \<open>alerts.json\<close>. The file has the hour \<open>08:00\<close> and the
  field \<open>version\<close>, the global the hour \<open>07:00\<close> and the field \<open>note\<close>. The file written
  has both hours, each with its record, the global's lists and \<open>version\<close>; the global
  afterwards has both hours and both fields.
\<close>

theorem save_alerts_to_file_merges_witness:
  "alerts_database example_state = JObj example_database
   \<and> map_of example_database ''alerts_by_time'' = Some (JObj example_by_time)
   \<and> distinct (map fst example_by_time)
   \<and> holds_document (files example_state ''alerts.json'')
   \<and> write_outcome example_state ''alerts.json'' = WriteOk
   \<and> files example_state ''alerts.json'' =
       Content (JObj [(''version'', JInt 2),
                      (''alerts_by_time'', JObj [(''08:00'', example_read_alert)])])
   \<and> save_alerts_to_file ''alerts.json'' example_state =
       (Inr (), example_state
          \<lparr>alerts_database := JObj
             [(''active_alerts'', JList [JStr ''a1'']),
              (''read_alerts'', JList []),
              (''alerts_by_time'', JObj
                 [(''08:00'', example_read_alert),
                  (''07:00'', JObj [(''Parameter'', JStr ''Temperature''), (''Value'', JInt 30),
                                    (''Message'', JStr ''Too hot''), (''read'', JBool False)])]),
              (''note'', JInt 1),
              (''version'', JInt 2)],
           files := (files example_state)(''alerts.json'' := Content (JObj
             [(''version'', JInt 2),
              (''alerts_by_time'', JObj
                 [(''08:00'', example_read_alert),
                  (''07:00'', JObj [(''Parameter'', JStr ''Temperature''), (''Value'', JInt 30),
                                    (''Message'', JStr ''Too hot''), (''read'', JBool False)])]),
              (''active_alerts'', JList [JStr ''a1'']),
              (''read_alerts'', JList [])]))\<rparr>)
   \<and> (\<exists>mg db'. save_alerts_to_file ''alerts.json'' example_state =
         (Inr (), example_state\<lparr>alerts_database := JObj db',
                    files := (files example_state)(''alerts.json'' := Content (JObj mg))\<rparr>)
     \<and> (\<exists>t. map_of mg ''alerts_by_time'' = Some (JObj t)
           \<and> map_of t = map_of (file_by_time (files example_state ''alerts.json''))
                  ++ map_of example_by_time)
     \<and> map_of db' = map_of example_database ++ map_of mg)"
proof -
  have 1: "alerts_database example_state = JObj example_database"
    by (simp add: example_state_def)
  have 2: "map_of example_database ''alerts_by_time'' = Some (JObj example_by_time)"
    by (simp add: example_database_def)
  have 3: "distinct (map fst example_by_time)"
    by (simp add: example_by_time_def)
  have 4: "holds_document (files example_state ''alerts.json'')"
    by (simp add: example_state_def example_files_def example_on_disk_def example_read_alert_def
          holds_document_def is_document_def stored_def)
  have 5: "write_outcome example_state ''alerts.json'' = WriteOk"
    by (simp add: example_state_def)
  have 6: "files example_state ''alerts.json'' =
       Content (JObj [(''version'', JInt 2),
                      (''alerts_by_time'', JObj [(''08:00'', example_read_alert)])])"
    by (simp add: example_state_def example_files_def example_on_disk_def)
  have 7: "save_alerts_to_file ''alerts.json'' example_state =
       (Inr (), example_state
          \<lparr>alerts_database := JObj
             [(''active_alerts'', JList [JStr ''a1'']),
              (''read_alerts'', JList []),
              (''alerts_by_time'', JObj
                 [(''08:00'', example_read_alert),
                  (''07:00'', JObj [(''Parameter'', JStr ''Temperature''), (''Value'', JInt 30),
                                    (''Message'', JStr ''Too hot''), (''read'', JBool False)])]),
              (''note'', JInt 1),
              (''version'', JInt 2)],
           files := (files example_state)(''alerts.json'' := Content (JObj
             [(''version'', JInt 2),
              (''alerts_by_time'', JObj
                 [(''08:00'', example_read_alert),
                  (''07:00'', JObj [(''Parameter'', JStr ''Temperature''), (''Value'', JInt 30),
                                    (''Message'', JStr ''Too hot''), (''read'', JBool False)])]),
              (''active_alerts'', JList [JStr ''a1'']),
              (''read_alerts'', JList [])]))\<rparr>)"
    unfolding save_alerts_to_file_def 6 1
    by (simp add: example_state_def stored_def example_database_def example_by_time_def
          new_alert_def merge_alerts_def ensure_key_def)
  from save_alerts_to_file_merges [OF 1 2 3 4 5] have 8:
    "\<exists>mg db'. save_alerts_to_file ''alerts.json'' example_state =
         (Inr (), example_state\<lparr>alerts_database := JObj db',
                    files := (files example_state)(''alerts.json'' := Content (JObj mg))\<rparr>)
     \<and> (\<exists>t. map_of mg ''alerts_by_time'' = Some (JObj t)
           \<and> map_of t = map_of (file_by_time (files example_state ''alerts.json''))
                  ++ map_of example_by_time)
     \<and> map_of db' = map_of example_database ++ map_of mg"
    by (elim exE conjE) (intro exI conjI; assumption)
  show ?thesis
    by (intro conjI 1 2 3 4 5 6 7 8)
qed

text \<open>
  Claim C1 as stated fails in two ways. Saving \<open>example_state\<close> to a path with no file
  writes the three fields, while the global keeps its field \<open>note\<close>: the global is not the
  merged dict. And at \<open>list.json\<close>, which holds the JSON text \<open>[]\<close>, the first assignment
  into \<open>existing_data\<close> raises \<open>TypeError\<close>, which \<open>except IOError\<close> does not catch: nothing
  is written.
\<close>

theorem save_alerts_to_file_counterexample:
  "fst (save_alerts_to_file ''new.json'' example_state) = Inr ()
   \<and> files (snd (save_alerts_to_file ''new.json'' example_state)) ''new.json'' =
       Content (JObj [(''active_alerts'', JList [JStr ''a1'']), (''read_alerts'', JList []),
          (''alerts_by_time'', JObj example_by_time)])
   \<and> fields_of (JObj [(''active_alerts'', JList [JStr ''a1'']), (''read_alerts'', JList []),
          (''alerts_by_time'', JObj example_by_time)]) ''note'' = None
   \<and> fields_of (alerts_database (snd (save_alerts_to_file ''new.json'' example_state))) ''note''
       = Some (JInt 1)
   \<and> fst (save_alerts_to_file ''list.json'' example_state) = Inl TypeError
   \<and> files (snd (save_alerts_to_file ''list.json'' example_state)) ''list.json'' = Content (JList [])"
  by (simp add: save_alerts_to_file_def example_state_def example_files_def example_on_disk_def example_read_alert_def stored_def
        example_database_def example_by_time_def
        merge_alerts_def ensure_key_def empty_database_def fields_of_def)

subsection \<open>C2: what a load leaves in the global\<close>

text \<open>
  Claim C2, as amended. When there is no file at the path, when the file holds text that
  decodes and is not JSON, or when it parses to a dict, \<open>load_alerts_from_file\<close> returns
  normally and the global is a dict with the three fields \<open>active_alerts\<close>, \<open>read_alerts\<close>
  and \<open>alerts_by_time\<close>: the empty structure in the first two cases, and otherwise the
  parsed dict, every field of it as parsed, with its empty default for each of the three
  fields the file lacks. Nothing is said here of a file that cannot be read.
\<close>

theorem load_alerts_from_file_completes:
  assumes "files s p = Missing \<or> files s p = Corrupt \<or> (\<exists>ex. files s p = Content (JObj ex))"
  shows "\<exists>L. load_alerts_from_file p s = (Inr (), s\<lparr>alerts_database := JObj L\<rparr>)
     \<and> map_of L = defaults ++ fields_of (stored (files s p))
     \<and> map_of L ''active_alerts'' \<noteq> None
     \<and> map_of L ''read_alerts'' \<noteq> None
     \<and> map_of L ''alerts_by_time'' \<noteq> None
     \<and> (files s p = Missing \<or> files s p = Corrupt \<longrightarrow> JObj L = empty_database)"
proof -
  consider (none) "files s p = Missing \<or> files s p = Corrupt"
    | (obj) ex where "files s p = Content (JObj ex)"
    using assms by blast
  then show ?thesis
  proof cases
    case none
    let ?L = "[(''active_alerts'', JList []), (''read_alerts'', JList []), (''alerts_by_time'', JObj [])]"
    have e: "JObj ?L = empty_database" by (simp add: empty_database_def)
    have r: "load_alerts_from_file p s = (Inr (), s\<lparr>alerts_database := JObj ?L\<rparr>)"
      using load_missing [OF none] e by simp
    have "stored (files s p) = empty_database"
      using none by (auto simp: stored_def)
    then have m: "map_of ?L = defaults ++ fields_of (stored (files s p))"
      by (simp add: defaults_def fields_of_def empty_database_def)
    have k: "map_of ?L ''active_alerts'' \<noteq> None" "map_of ?L ''read_alerts'' \<noteq> None"
      "map_of ?L ''alerts_by_time'' \<noteq> None"
      by simp_all
    show ?thesis
      by (rule exI [of _ ?L]) (intro conjI impI r m k e)
  next
    case obj
    from load_obj [OF obj] obtain L where
      r: "load_alerts_from_file p s = (Inr (), s\<lparr>alerts_database := JObj L\<rparr>)"
      and m: "map_of L = defaults ++ map_of ex"
      by blast
    have m': "map_of L = defaults ++ fields_of (stored (files s p))"
      using m obj by (simp add: stored_def fields_of_def)
    have k: "map_of L ''active_alerts'' \<noteq> None" "map_of L ''read_alerts'' \<noteq> None"
      "map_of L ''alerts_by_time'' \<noteq> None"
      unfolding m by (simp_all add: map_add_def defaults_simps split: option.splits)
    have n: "files s p = Missing \<or> files s p = Corrupt \<longrightarrow> JObj L = empty_database"
      using obj by simp
    show ?thesis
      by (rule exI [of _ L]) (intro conjI r m' k n)
  qed
qed

text \<open>The theorem at \<open>alerts.json\<close> of \<open>example_state\<close>, a file without \<open>active_alerts\<close>
  and \<open>read_alerts\<close>.\<close>

theorem load_alerts_from_file_completes_witness:
  "files example_state ''alerts.json'' = Content (JObj example_on_disk)
   \<and> (\<exists>L. load_alerts_from_file ''alerts.json'' example_state =
            (Inr (), example_state\<lparr>alerts_database := JObj L\<rparr>)
     \<and> map_of L = defaults ++ fields_of (stored (files example_state ''alerts.json''))
     \<and> map_of L ''active_alerts'' \<noteq> None
     \<and> map_of L ''read_alerts'' \<noteq> None
     \<and> map_of L ''alerts_by_time'' \<noteq> None)"
proof -
  have f: "files example_state ''alerts.json'' = Content (JObj example_on_disk)"
    by (simp add: example_state_def example_files_def example_on_disk_def example_read_alert_def)
  then have "files example_state ''alerts.json'' = Missing
      \<or> files example_state ''alerts.json'' = Corrupt
      \<or> (\<exists>ex. files example_state ''alerts.json'' = Content (JObj ex))"
    by simp
  from load_alerts_from_file_completes [OF this] f show ?thesis by blast
qed

text \<open>
  Claim C2 as stated fails: \<open>list.json\<close> holds the JSON text \<open>[]\<close>, which parses. The test
  \<open>"alerts_by_time" not in alerts_database\<close> is true of the empty list and the assignment
  that follows raises \<open>TypeError\<close>, which the \<open>except\<close> clause does not catch; the global is
  left bound to the list.
\<close>

theorem load_alerts_from_file_counterexample:
  "fst (load_alerts_from_file ''list.json'' example_state) = Inl TypeError
   \<and> alerts_database (snd (load_alerts_from_file ''list.json'' example_state)) = JList []"
  by (simp add: load_alerts_from_file_def example_state_def example_files_def example_on_disk_def example_read_alert_def ensure_key_def)

subsection \<open>C3: adding overwrites the hour\<close>



subsection \<open>C4: a saved document is loaded back\<close>

text \<open>
  Claim C4. A save succeeds when it returns normally and prints no error line. After such
  a save, with the global's \<open>alerts_by_time\<close> a dict with no hour twice,
  \<open>load_alerts_from_file\<close> on the same path returns normally and the loaded
  \<open>alerts_by_time\<close> is the one the file had before, overridden by the saved one: every hour
  of the saved document is there with the record that was saved.
\<close>

theorem save_then_load_round_trip:
  assumes ok: "fst (save_alerts_to_file p s) = Inr ()"
    and quiet: "stdout (snd (save_alerts_to_file p s)) = stdout s"
    and dm: "distinct (map fst (by_time_of (alerts_database s)))"
  shows "fst (load_alerts_from_file p (snd (save_alerts_to_file p s))) = Inr ()
     \<and> map_of (by_time_of (alerts_database
          (snd (load_alerts_from_file p (snd (save_alerts_to_file p s)))))) =
         map_of (by_time_of (stored (files s p))) ++ map_of (by_time_of (alerts_database s))
     \<and> (\<forall>h r. map_of (by_time_of (alerts_database s)) h = Some r \<longrightarrow>
          map_of (by_time_of (alerts_database
            (snd (load_alerts_from_file p (snd (save_alerts_to_file p s)))))) h = Some r)"
proof -
  from save_written [OF ok quiet] obtain m mg where
    m: "alerts_database s = JObj m"
    and mr: "merge_alerts (stored (files s p)) (JObj m) = Inr (JObj mg)"
    and r: "save_alerts_to_file p s =
            (Inr (), s\<lparr>alerts_database := JObj (dict_update m mg),
                       files := (files s)(p := Content (JObj mg))\<rparr>)"
    by blast
  from merge_alerts_success [OF mr] obtain ex ma where
    ex: "stored (files s p) = JObj ex"
    and ma: "map_of m ''alerts_by_time'' = Some (JObj ma)"
    and bt: "by_time_of (JObj mg) = dict_update (by_time_of (JObj ex)) ma"
    and has: "map_of mg ''alerts_by_time'' \<noteq> None"
    by auto
  have bm: "by_time_of (alerts_database s) = ma"
    using m ma by (simp add: by_time_of_def fields_of_def)
  let ?s1 = "snd (save_alerts_to_file p s)"
  have f: "files ?s1 p = Content (JObj mg)" using r by simp
  from load_obj [OF f] obtain L where
    l: "load_alerts_from_file p ?s1 = (Inr (), ?s1\<lparr>alerts_database := JObj L\<rparr>)"
    and lm: "map_of L = defaults ++ map_of mg"
    by blast
  have "map_of L ''alerts_by_time'' = map_of mg ''alerts_by_time''"
    using has unfolding lm by (auto simp: map_add_def split: option.splits)
  then have "by_time_of (JObj L) = by_time_of (JObj mg)"
    by (rule by_time_of_same_field)
  then have "map_of (by_time_of (JObj L)) = map_of (by_time_of (JObj ex)) ++ map_of ma"
    using bt dm bm by (simp add: map_of_dict_update)
  then have 2: "map_of (by_time_of (alerts_database (snd (load_alerts_from_file p ?s1)))) =
         map_of (by_time_of (stored (files s p))) ++ map_of (by_time_of (alerts_database s))"
    using l ex bm by simp
  have 1: "fst (load_alerts_from_file p ?s1) = Inr ()" using l by simp
  show ?thesis unfolding 2 using 1 by (simp add: map_add_def)
qed

text \<open>The theorem at \<open>alerts.json\<close> of \<open>example_state\<close>: the hour \<open>07:00\<close> of the saved
  document and the hour \<open>08:00\<close> that only the file had are both loaded.\<close>

theorem save_then_load_round_trip_witness:
  "fst (save_alerts_to_file ''alerts.json'' example_state) = Inr ()
   \<and> stdout (snd (save_alerts_to_file ''alerts.json'' example_state)) = stdout example_state
   \<and> distinct (map fst (by_time_of (alerts_database example_state)))
   \<and> fst (load_alerts_from_file ''alerts.json''
          (snd (save_alerts_to_file ''alerts.json'' example_state))) = Inr ()
   \<and> map_of (by_time_of (alerts_database (snd (load_alerts_from_file ''alerts.json''
          (snd (save_alerts_to_file ''alerts.json'' example_state)))))) ''07:00'' =
       Some (new_alert (JStr ''Temperature'') (JInt 30) (JStr ''Too hot''))
   \<and> map_of (by_time_of (alerts_database (snd (load_alerts_from_file ''alerts.json''
          (snd (save_alerts_to_file ''alerts.json'' example_state)))))) ''08:00'' =
       Some (example_read_alert)"
proof -
  have ok: "fst (save_alerts_to_file ''alerts.json'' example_state) = Inr ()"
    by (simp add: save_alerts_to_file_def example_state_def example_files_def example_on_disk_def example_read_alert_def stored_def
          example_database_def example_by_time_def merge_alerts_def ensure_key_def)
  have quiet: "stdout (snd (save_alerts_to_file ''alerts.json'' example_state)) = stdout example_state"
    by (simp add: save_alerts_to_file_def example_state_def example_files_def example_on_disk_def example_read_alert_def stored_def
          example_database_def example_by_time_def merge_alerts_def ensure_key_def)
  have bm: "by_time_of (alerts_database example_state) = example_by_time"
    by (simp add: example_state_def example_database_def by_time_of_def fields_of_def)
  have dm: "distinct (map fst (by_time_of (alerts_database example_state)))"
    unfolding bm by (simp add: example_by_time_def)
  have st: "by_time_of (stored (files example_state ''alerts.json'')) =
        [(''08:00'', example_read_alert)]"
    by (simp add: example_state_def example_files_def example_on_disk_def example_read_alert_def stored_def by_time_of_def fields_of_def)
  show ?thesis
    using save_then_load_round_trip [OF ok quiet dm] ok quiet dm
    by (simp add: bm st example_by_time_def map_add_def)
qed

subsection \<open>C5: a failed write\<close>

text \<open>
  Claim C5. Let the save get as far as the write (the file can be read or is missing, and
  the merge raises nothing) and let the write fail, on opening the file or after. Then
  \<open>save_alerts_to_file\<close> returns normally, the global is what it was, and the only trace
  is one more printed line, \<open>Error saving alerts:\<close> with the message of the failure.
\<close>

theorem save_write_failure_is_reported:
  assumes wr: "write_outcome s p = OpenFails msg \<or> write_outcome s p = WriteFails msg"
    and rd: "\<And>m. files s p \<noteq> Unreadable m"
    and mr: "merge_alerts (stored (files s p)) (alerts_database s) = Inr merged"
  shows "fst (save_alerts_to_file p s) = Inr ()
     \<and> alerts_database (snd (save_alerts_to_file p s)) = alerts_database s
     \<and> stdout (snd (save_alerts_to_file p s)) = stdout s @ [''Error saving alerts: '' @ msg]"
proof (cases "files s p")
  case (Unreadable m)
  with rd show ?thesis by blast
qed (use wr mr in \<open>auto simp: save_alerts_to_file_def error_line_def\<close>)

text \<open>The theorem at \<open>readonly.json\<close> of \<open>example_state\<close>, which cannot be opened for
  writing.\<close>

theorem save_write_failure_is_reported_witness:
  "write_outcome example_state ''readonly.json'' = OpenFails ''Permission denied''
   \<and> files example_state ''readonly.json'' = Missing
   \<and> merge_alerts (stored (files example_state ''readonly.json'')) (alerts_database example_state) =
       Inr (JObj [(''active_alerts'', JList [JStr ''a1'']), (''read_alerts'', JList []),
                  (''alerts_by_time'', JObj example_by_time)])
   \<and> fst (save_alerts_to_file ''readonly.json'' example_state) = Inr ()
   \<and> alerts_database (snd (save_alerts_to_file ''readonly.json'' example_state)) =
       alerts_database example_state
   \<and> stdout (snd (save_alerts_to_file ''readonly.json'' example_state)) =
       [''Error saving alerts: Permission denied'']"
proof -
  have wr: "write_outcome example_state ''readonly.json'' = OpenFails ''Permission denied''
      \<or> write_outcome example_state ''readonly.json'' = WriteFails ''Permission denied''"
    by (simp add: example_state_def)
  have f: "files example_state ''readonly.json'' = Missing"
    by (simp add: example_state_def example_files_def example_on_disk_def example_read_alert_def)
  then have rd: "\<And>m. files example_state ''readonly.json'' \<noteq> Unreadable m"
    by simp
  have mr: "merge_alerts (stored (files example_state ''readonly.json'')) (alerts_database example_state) =
       Inr (JObj [(''active_alerts'', JList [JStr ''a1'']), (''read_alerts'', JList []),
                  (''alerts_by_time'', JObj example_by_time)])"
    by (simp add: example_state_def example_files_def example_on_disk_def example_read_alert_def stored_def example_database_def
          example_by_time_def merge_alerts_def ensure_key_def empty_database_def)
  have out: "stdout example_state = []" by (simp add: example_state_def)
  have w: "write_outcome example_state ''readonly.json'' = OpenFails ''Permission denied''"
    by (simp add: example_state_def)
  show ?thesis
    using save_write_failure_is_reported [OF wr rd mr] w f mr out by simp
qed

subsection \<open>C6: the unread alerts\<close>

text \<open>
  Claim C6. Let the path hold a document whose records are dicts with \<open>read\<close> absent or a
  boolean. Then \<open>get_unread_alerts\<close> returns normally, and what it returns are the records
  of the file's \<open>alerts_by_time\<close> whose \<open>read\<close> is absent or false, each one once and in
  the order in which the file's \<open>alerts_by_time\<close> lists them (the order of insertion, not
  the order of the hours); the global is what \<open>load_alerts_from_file\<close> leaves.
\<close>

theorem get_unread_alerts_filters:
  assumes doc: "holds_document (files s p)"
    and recs: "list_all read_is_boolean (map snd (by_time_of (stored (files s p))))"
  shows "fst (get_unread_alerts p s) =
           Inr (filter spec_unread (map snd (by_time_of (stored (files s p)))))
     \<and> snd (get_unread_alerts p s) = snd (load_alerts_from_file p s)"
proof -
  from load_document [OF doc] obtain L where
    l: "load_alerts_from_file p s = (Inr (), s\<lparr>alerts_database := JObj L\<rparr>)"
    and b: "map_of L ''alerts_by_time'' = Some (JObj (by_time_of (stored (files s p))))"
    by blast
  have "fst (get_unread_alerts p s) = unread_of (map snd (by_time_of (stored (files s p))))"
    using l b by (simp add: get_unread_alerts_def)
  then show ?thesis
    using unread_of_records [OF recs] by (simp add: queries_state)
qed

text \<open>The theorem at \<open>unread.json\<close> of \<open>example_state\<close>: the record marked read is left
  out, and \<open>10:00\<close>, inserted first, comes before \<open>07:00\<close>.\<close>

theorem get_unread_alerts_filters_witness:
  "holds_document (files example_state ''unread.json'')
   \<and> list_all read_is_boolean (map snd (by_time_of (stored (files example_state ''unread.json''))))
   \<and> fst (get_unread_alerts ''unread.json'' example_state) =
       Inr [JObj [(''Message'', JStr ''late''), (''read'', JBool False)],
            JObj [(''Message'', JStr ''early'')]]"
proof -
  have st: "by_time_of (stored (files example_state ''unread.json'')) =
      [(''10:00'', JObj [(''Message'', JStr ''late''), (''read'', JBool False)]),
       (''B'', JObj [(''read'', JBool True)]),
       (''07:00'', JObj [(''Message'', JStr ''early'')])]"
    by (simp add: example_state_def example_files_def stored_def by_time_of_def fields_of_def)
  have doc: "holds_document (files example_state ''unread.json'')"
    by (simp add: example_state_def example_files_def holds_document_def is_document_def stored_def)
  have recs: "list_all read_is_boolean (map snd (by_time_of (stored (files example_state ''unread.json''))))"
    unfolding st by (simp add: read_is_boolean_def)
  show ?thesis
    using get_unread_alerts_filters [OF doc recs] doc recs
    by (simp add: st spec_unread_def fields_of_def)
qed

subsection \<open>C7: records with four fields\<close>

text \<open>
  Claim C7, as amended. The four fields are an invariant that the operations keep, not
  one they establish. Let every record of \<open>alerts_by_time\<close>, in the global and in the file
  at the path, have the four fields \<open>Parameter\<close>, \<open>Value\<close>, \<open>Message\<close> and \<open>read\<close>, the
  file's top level having no key twice. Then after each of \<open>load_alerts_from_file\<close>,
  \<open>save_alerts_to_file\<close>, \<open>add_alert_by_time\<close>, \<open>get_alerts_by_time\<close> and
  \<open>get_unread_alerts\<close>, however it ends, every record in the global and in the file has the
  four fields. And when the path holds a document, \<open>add_alert_by_time\<close> returns normally
  and the record at its hour is exactly \<open>{Parameter, Value, Message, read: False}\<close>.
\<close>

theorem records_keep_four_fields:
  assumes mem: "records_ok (alerts_database s)"
    and disk: "records_ok (stored (files s p))"
    and dk: "distinct_keys (stored (files s p))"
  shows "records_ok (alerts_database (snd (load_alerts_from_file p s)))
     \<and> records_ok (stored (files (snd (load_alerts_from_file p s)) p))
     \<and> records_ok (alerts_database (snd (save_alerts_to_file p s)))
     \<and> records_ok (stored (files (snd (save_alerts_to_file p s)) p))
     \<and> records_ok (alerts_database (snd (add_alert_by_time h par v msg p s)))
     \<and> records_ok (stored (files (snd (add_alert_by_time h par v msg p s)) p))
     \<and> records_ok (alerts_database (snd (get_alerts_by_time p s)))
     \<and> records_ok (stored (files (snd (get_alerts_by_time p s)) p))
     \<and> records_ok (alerts_database (snd (get_unread_alerts p s)))
     \<and> records_ok (stored (files (snd (get_unread_alerts p s)) p))
     \<and> (holds_document (files s p) \<longrightarrow>
          fst (add_alert_by_time h par v msg p s) = Inr () \<and>
          map_of (by_time_of (alerts_database (snd (add_alert_by_time h par v msg p s)))) h =
            Some (JObj [(''Parameter'', par), (''Value'', v), (''Message'', msg),
                        (''read'', JBool False)]))"
proof -
  note l = load_keeps_records [OF mem disk]
  have ld: "records_ok (stored (files (snd (load_alerts_from_file p s)) p))"
    using l(2) disk by simp
  have "holds_document (files s p) \<longrightarrow>
          fst (add_alert_by_time h par v msg p s) = Inr () \<and>
          map_of (by_time_of (alerts_database (snd (add_alert_by_time h par v msg p s)))) h =
            Some (JObj [(''Parameter'', par), (''Value'', v), (''Message'', msg),
                        (''read'', JBool False)])"
    using add_alert_by_time_memory [of s p h par v msg]
    by (simp add: map_of_dict_setitem new_alert_def)
  with l(1) ld save_keeps_records [OF mem disk dk] add_keeps_records [OF mem disk dk, of h par v msg]
  show ?thesis by (simp add: queries_state)
qed

text \<open>The theorem at \<open>alerts.json\<close> of \<open>example_state\<close>, where the records of the global and
  of the file have the four fields, and the hour \<open>09:00\<close>.\<close>

theorem records_keep_four_fields_witness:
  "records_ok (alerts_database example_state)
   \<and> records_ok (stored (files example_state ''alerts.json''))
   \<and> distinct_keys (stored (files example_state ''alerts.json''))
   \<and> holds_document (files example_state ''alerts.json'')
   \<and> records_ok (alerts_database (snd (load_alerts_from_file ''alerts.json'' example_state)))
   \<and> records_ok (alerts_database (snd (save_alerts_to_file ''alerts.json'' example_state)))
   \<and> records_ok (stored (files (snd (save_alerts_to_file ''alerts.json'' example_state)) ''alerts.json''))
   \<and> records_ok (alerts_database (snd (add_alert_by_time ''09:00'' (JStr ''Humidity'') (JInt 80)
          (JStr ''Too humid'') ''alerts.json'' example_state)))
   \<and> records_ok (stored (files (snd (add_alert_by_time ''09:00'' (JStr ''Humidity'') (JInt 80)
          (JStr ''Too humid'') ''alerts.json'' example_state)) ''alerts.json''))
   \<and> records_ok (alerts_database (snd (get_unread_alerts ''alerts.json'' example_state)))
   \<and> map_of (by_time_of (alerts_database (snd (add_alert_by_time ''09:00'' (JStr ''Humidity'')
          (JInt 80) (JStr ''Too humid'') ''alerts.json'' example_state)))) ''09:00'' =
       Some (JObj [(''Parameter'', JStr ''Humidity''), (''Value'', JInt 80),
                   (''Message'', JStr ''Too humid''), (''read'', JBool False)])"
proof -
  have mem: "records_ok (alerts_database example_state)"
    by (simp add: example_state_def example_database_def example_by_time_def records_ok_def
          by_time_of_def fields_of_def has_four_fields_def new_alert_def)
  have disk: "records_ok (stored (files example_state ''alerts.json''))"
    by (simp add: example_state_def example_files_def example_on_disk_def example_read_alert_def stored_def records_ok_def
          by_time_of_def fields_of_def has_four_fields_def)
  have dk: "distinct_keys (stored (files example_state ''alerts.json''))"
    by (simp add: example_state_def example_files_def example_on_disk_def example_read_alert_def stored_def distinct_keys_def)
  have doc: "holds_document (files example_state ''alerts.json'')"
    by (simp add: example_state_def example_files_def example_on_disk_def example_read_alert_def holds_document_def is_document_def stored_def)
  show ?thesis
    using records_keep_four_fields [OF mem disk dk, where h = "''09:00''" and par = "JStr ''Humidity''"
        and v = "JInt 80" and msg = "JStr ''Too humid''"] mem disk dk doc
    by simp
qed

text \<open>
  Claim C7 as stated fails: nothing checks the shape of a record. \<open>broken.json\<close> holds a
  record without fields at \<open>07:00\<close>; \<open>load_alerts_from_file\<close> returns normally and the
  global's \<open>alerts_by_time\<close> holds that record as it is.
\<close>

theorem records_keep_four_fields_counterexample:
  "fst (load_alerts_from_file ''broken.json'' example_state) = Inr ()
   \<and> by_time_of (alerts_database (snd (load_alerts_from_file ''broken.json'' example_state))) =
       [(''07:00'', JObj [])]
   \<and> \<not> has_four_fields (JObj [])
   \<and> \<not> records_ok (alerts_database (snd (load_alerts_from_file ''broken.json'' example_state)))"
  by (simp add: load_alerts_from_file_def example_state_def example_files_def example_on_disk_def example_read_alert_def ensure_key_def
        by_time_of_def fields_of_def has_four_fields_def records_ok_def)

subsection \<open>C8: adding keeps the other hours\<close>

text \<open>
  Claim C8. Let the path hold a document, let the hour be none of the hours of the file's
  \<open>alerts_by_time\<close>, and let the write succeed. After \<open>add_alert_by_time\<close> the file's
  \<open>alerts_by_time\<close> is the former one, every hour with its record and in its place,
  followed by the new hour with the new record.
\<close>

theorem add_alert_by_time_keeps_other_hours:
  assumes doc: "holds_document (files s p)"
    and new: "h \<notin> fst ` set (by_time_of (stored (files s p)))"
    and wr: "write_outcome s p = WriteOk"
  shows "fst (add_alert_by_time h par v msg p s) = Inr ()
     \<and> files (snd (add_alert_by_time h par v msg p s)) p =
         Content (stored (files (snd (add_alert_by_time h par v msg p s)) p))
     \<and> by_time_of (stored (files (snd (add_alert_by_time h par v msg p s)) p)) =
         by_time_of (stored (files s p)) @ [(h, new_alert par v msg)]"
proof -
  note r = add_alert_by_time_result [OF doc wr, of h par v msg]
  have "map_of (by_time_of (stored (files s p))) h = None"
    using new by (simp add: map_of_eq_None_iff)
  then have "dict_setitem h (new_alert par v msg) (by_time_of (stored (files s p))) =
      by_time_of (stored (files s p)) @ [(h, new_alert par v msg)]"
    by (rule dict_setitem_absent)
  with r(1,3,6) show ?thesis by simp
qed

text \<open>The theorem at \<open>alerts.json\<close> of \<open>example_state\<close>, which has the hour \<open>08:00\<close>, and
  the new hour \<open>09:00\<close>.\<close>

theorem add_alert_by_time_keeps_other_hours_witness:
  "holds_document (files example_state ''alerts.json'')
   \<and> ''09:00'' \<notin> fst ` set (by_time_of (stored (files example_state ''alerts.json'')))
   \<and> write_outcome example_state ''alerts.json'' = WriteOk
   \<and> fst (add_alert_by_time ''09:00'' (JStr ''Humidity'') (JInt 80) (JStr ''Too humid'')
          ''alerts.json'' example_state) = Inr ()
   \<and> by_time_of (stored (files (snd (add_alert_by_time ''09:00'' (JStr ''Humidity'') (JInt 80)
           (JStr ''Too humid'') ''alerts.json'' example_state)) ''alerts.json'')) =
        [(''08:00'', example_read_alert),
         (''09:00'', new_alert (JStr ''Humidity'') (JInt 80) (JStr ''Too humid''))]"
proof -
  have doc: "holds_document (files example_state ''alerts.json'')"
    by (simp add: example_state_def example_files_def example_on_disk_def example_read_alert_def holds_document_def is_document_def stored_def)
  have wr: "write_outcome example_state ''alerts.json'' = WriteOk"
    by (simp add: example_state_def)
  have st: "by_time_of (stored (files example_state ''alerts.json'')) =
        [(''08:00'', example_read_alert)]"
    by (simp add: example_state_def example_files_def example_on_disk_def example_read_alert_def stored_def by_time_of_def fields_of_def)
  have new: "''09:00'' \<notin> fst ` set (by_time_of (stored (files example_state ''alerts.json'')))"
    unfolding st by simp
  show ?thesis
    using add_alert_by_time_keeps_other_hours [OF doc new wr, where par = "JStr ''Humidity''"
        and v = "JInt 80" and msg = "JStr ''Too humid''"] doc new wr st
    by simp
qed

subsection \<open>C9: the trend accessors\<close>

text \<open>
  Claim C9. \<open>data_list\<close> and \<open>detailed\<close> stand for what the two functions of
  \<open>fake_database\<close> return: a list of entries, each a dict with a \<open>Date\<close> field, and a dict.
  \<open>get_trend_data\<close> returns the first entry whose \<open>Date\<close> is the date asked for and
  \<open>get_detailed_trend_data\<close> the value under the date; each returns the empty dict, and
  raises nothing, when there is none.
\<close>

theorem trend_accessors_lookup:
  assumes "list_all has_date data_list"
  shows "get_trend_data data_list date =
           Inr (case find (\<lambda>item. fields_of item ''Date'' = Some (JStr date)) data_list of
                  None \<Rightarrow> JObj [] | Some item \<Rightarrow> item)
     \<and> get_detailed_trend_data (JObj detailed) date =
           Inr (case map_of detailed date of None \<Rightarrow> JObj [] | Some v \<Rightarrow> v)"
  using first_with_date_find [OF assms]
  by (simp add: get_trend_data_def get_detailed_trend_data_def)

text \<open>The theorem at \<open>example_trend\<close>, which has two entries for the second of January and
  none for the third.\<close>

theorem trend_accessors_lookup_witness:
  "list_all has_date example_trend
   \<and> get_trend_data example_trend ''2024-01-02'' =
       Inr (JObj [(''Date'', JStr ''2024-01-02''), (''Temperature'', JInt 21)])
   \<and> get_trend_data example_trend ''2024-01-03'' = Inr (JObj [])
   \<and> get_detailed_trend_data (JObj [(''2024-01-01'', JObj [(''07:00'', JInt 20)])]) ''2024-01-01'' =
       Inr (JObj [(''07:00'', JInt 20)])
   \<and> get_detailed_trend_data (JObj [(''2024-01-01'', JObj [(''07:00'', JInt 20)])]) ''2024-01-03'' =
       Inr (JObj [])"
proof -
  have h: "list_all has_date example_trend"
    by (simp add: example_trend_def has_date_def fields_of_def)
  show ?thesis
    using trend_accessors_lookup [OF h, of "''2024-01-02''" "[(''2024-01-01'', JObj [(''07:00'', JInt 20)])]"]
      trend_accessors_lookup [OF h, of "''2024-01-03''" "[(''2024-01-01'', JObj [(''07:00'', JInt 20)])]"]
      trend_accessors_lookup [OF h, of "''2024-01-01''" "[(''2024-01-01'', JObj [(''07:00'', JInt 20)])]"] h
    by (simp add: example_trend_def fields_of_def)
qed

subsection \<open>C10: fields the store does not know\<close>

text \<open>
  Claim C10. Let the file parse to a dict with no key twice and let the save succeed (it
  returns normally and prints no error line). Then the dict written to the file has, for
  every key other than \<open>active_alerts\<close>, \<open>read_alerts\<close> and \<open>alerts_by_time\<close>, exactly what
  the file had before: a field of the file is carried over with its value, and a field
  that only the global has is not written. Every such field of the file is also in the
  global afterwards, with the file's value.
\<close>

theorem save_keeps_other_fields:
  assumes f: "files s p = Content (JObj ex)"
    and dex: "distinct (map fst ex)"
    and ok: "fst (save_alerts_to_file p s) = Inr ()"
    and quiet: "stdout (snd (save_alerts_to_file p s)) = stdout s"
  shows "\<exists>mg db. files (snd (save_alerts_to_file p s)) p = Content (JObj mg)
     \<and> alerts_database (snd (save_alerts_to_file p s)) = JObj db
     \<and> (\<forall>k. k \<noteq> ''active_alerts'' \<and> k \<noteq> ''read_alerts'' \<and> k \<noteq> ''alerts_by_time'' \<longrightarrow>
          map_of mg k = map_of ex k \<and>
          (\<forall>v. map_of ex k = Some v \<longrightarrow> map_of db k = Some v))"
proof -
  from save_written [OF ok quiet] obtain m mg where
    m: "alerts_database s = JObj m"
    and mr: "merge_alerts (stored (files s p)) (JObj m) = Inr (JObj mg)"
    and r: "save_alerts_to_file p s =
            (Inr (), s\<lparr>alerts_database := JObj (dict_update m mg),
                       files := (files s)(p := Content (JObj mg))\<rparr>)"
    by blast
  have st: "stored (files s p) = JObj ex" using f by (simp add: stored_def)
  from merge_alerts_success [OF mr] st dex have
    o: "\<forall>k. k \<noteq> ''alerts_by_time'' \<longrightarrow>
          map_of mg k = ((map_of ex)(''active_alerts'' \<mapsto> field_or_empty_list m ''active_alerts'',
                                     ''read_alerts'' \<mapsto> field_or_empty_list m ''read_alerts'')) k"
    and dmg: "distinct (map fst mg)"
    by auto
  have db: "map_of (dict_update m mg) = map_of m ++ map_of mg"
    using dmg by (rule map_of_dict_update)
  have 1: "files (snd (save_alerts_to_file p s)) p = Content (JObj mg)" using r by simp
  have 2: "alerts_database (snd (save_alerts_to_file p s)) = JObj (dict_update m mg)"
    using r by simp
  have 3: "\<forall>k. k \<noteq> ''active_alerts'' \<and> k \<noteq> ''read_alerts'' \<and> k \<noteq> ''alerts_by_time'' \<longrightarrow>
          map_of mg k = map_of ex k \<and>
          (\<forall>v. map_of ex k = Some v \<longrightarrow> map_of (dict_update m mg) k = Some v)"
    using o unfolding db by (auto simp: map_add_def)
  show ?thesis
    by (rule exI [of _ mg], rule exI [of _ "dict_update m mg"]) (intro conjI 1 2 3)
qed

text \<open>The theorem at \<open>alerts.json\<close> of \<open>example_state\<close>: the file's field \<open>version\<close> is
  written back and reaches the global; the global's field \<open>note\<close> is not written.\<close>

theorem save_keeps_other_fields_witness:
  "files example_state ''alerts.json'' = Content (JObj example_on_disk)
   \<and> fst (save_alerts_to_file ''alerts.json'' example_state) = Inr ()
   \<and> stdout (snd (save_alerts_to_file ''alerts.json'' example_state)) = stdout example_state
   \<and> fields_of (alerts_database example_state) ''note'' = Some (JInt 1)
   \<and> (\<exists>mg db. files (snd (save_alerts_to_file ''alerts.json'' example_state)) ''alerts.json'' =
          Content (JObj mg)
     \<and> alerts_database (snd (save_alerts_to_file ''alerts.json'' example_state)) = JObj db
     \<and> map_of mg ''version'' = Some (JInt 2)
     \<and> map_of mg ''note'' = None
     \<and> map_of db ''version'' = Some (JInt 2))"
proof -
  have f: "files example_state ''alerts.json'' = Content (JObj example_on_disk)"
    by (simp add: example_state_def example_files_def)
  have dex: "distinct (map fst example_on_disk)" by (simp add: example_on_disk_def)
  have ok: "fst (save_alerts_to_file ''alerts.json'' example_state) = Inr ()"
    by (simp add: save_alerts_to_file_def example_state_def example_files_def example_on_disk_def example_read_alert_def stored_def
          example_database_def example_by_time_def merge_alerts_def ensure_key_def)
  have quiet: "stdout (snd (save_alerts_to_file ''alerts.json'' example_state)) = stdout example_state"
    by (simp add: save_alerts_to_file_def example_state_def example_files_def example_on_disk_def example_read_alert_def stored_def
          example_database_def example_by_time_def merge_alerts_def ensure_key_def)
  have nt: "fields_of (alerts_database example_state) ''note'' = Some (JInt 1)"
    by (simp add: example_state_def example_database_def fields_of_def)
  from save_keeps_other_fields [OF f dex ok quiet] obtain mg db where
    1: "files (snd (save_alerts_to_file ''alerts.json'' example_state)) ''alerts.json'' = Content (JObj mg)"
    and 2: "alerts_database (snd (save_alerts_to_file ''alerts.json'' example_state)) = JObj db"
    and 3: "\<forall>k. k \<noteq> ''active_alerts'' \<and> k \<noteq> ''read_alerts'' \<and> k \<noteq> ''alerts_by_time'' \<longrightarrow>
          map_of mg k = map_of example_on_disk k \<and> (\<forall>v. map_of example_on_disk k = Some v \<longrightarrow> map_of db k = Some v)"
    by (elim exE conjE) (rule that)
  have kv: "''version'' \<noteq> ''active_alerts'' \<and> ''version'' \<noteq> ''read_alerts''
      \<and> ''version'' \<noteq> ''alerts_by_time''"
    by simp
  have kn: "''note'' \<noteq> ''active_alerts'' \<and> ''note'' \<noteq> ''read_alerts''
      \<and> ''note'' \<noteq> ''alerts_by_time''"
    by simp
  note v = 3 [THEN spec, of "''version''", THEN mp, OF kv]
  note n = 3 [THEN spec, of "''note''", THEN mp, OF kn]
  have v1: "map_of mg ''version'' = Some (JInt 2)" using v by (simp add: example_on_disk_def)
  have v2: "map_of mg ''note'' = None" using n by (simp add: example_on_disk_def)
  have v3: "map_of db ''version'' = Some (JInt 2)" using v by (simp add: example_on_disk_def)
  have e: "\<exists>mg db. files (snd (save_alerts_to_file ''alerts.json'' example_state)) ''alerts.json'' =
          Content (JObj mg)
     \<and> alerts_database (snd (save_alerts_to_file ''alerts.json'' example_state)) = JObj db
     \<and> map_of mg ''version'' = Some (JInt 2)
     \<and> map_of mg ''note'' = None
     \<and> map_of db ''version'' = Some (JInt 2)"
    by (rule exI [of _ mg], rule exI [of _ db]) (intro conjI 1 2 v1 v2 v3)
  show ?thesis
    by (intro conjI f ok quiet nt e)
qed

end
